theory Spec2Isabelle
  imports Complex_Main "HOL-Library.Sublist" "HOL-Library.Multiset"
begin

section \<open>BLEU scoring (bleu\_score.py)\<close>

text \<open>
  Token sequences are lists over any type with equality. Python floats are read as
  real numbers; the integer results \<open>0\<close> and \<open>1\<close> of the early returns are
  the reals \<open>0\<close> and \<open>1\<close>. The order \<open>n\<close> of an n-gram is a natural number:
  \<open>BLEU_score\<close> only ever passes the values of \<open>range(n+1)\<close>.
  An operation of Python that can raise is a function into \<open>py_error + real\<close>.
\<close>

datatype py_error = ZeroDivisionError | RuntimeError | TypeError | AttributeError

text \<open>Python's true division \<open>a / b\<close>.\<close>

definition truediv :: "real \<Rightarrow> real \<Rightarrow> py_error + real" where
  "truediv a b = (if b = 0 then Inl ZeroDivisionError else Inr (a / b))"

text \<open>
  Python's \<open>x ** y\<close> on a base \<open>x \<ge> 0\<close>: a zero base with a negative exponent
  raises, any base to the power \<open>0\<close> is \<open>1\<close>, a zero base to a positive power is
  \<open>0\<close>. (\<open>BLEU_score\<close> never has a negative base: \<open>p_product\<close> is a product of
  precisions, see \<open>precision_loop_nonneg\<close>.)
\<close>

definition py_pow :: "real \<Rightarrow> real \<Rightarrow> py_error + real" where
  "py_pow x y =
     (if y = 0 then Inr 1
      else if x = 0 then (if y < 0 then Inl ZeroDivisionError else Inr 0)
      else Inr (x powr y))"

text \<open>
  \<^verbatim>\<open>
  def grouper(seq, n):
      if len(seq) >= n:
          return [seq[i:i+n] for i in range(len(seq)-n+1)]
      else:
          return []
  \<close>
  The slice \<open>seq[i:i+n]\<close> is \<open>take n (drop i seq)\<close>.
\<close>

definition grouper :: "'a list \<Rightarrow> nat \<Rightarrow> 'a list list" where
  "grouper seq n =
     (if length seq \<ge> n
      then map (\<lambda>i. take n (drop i seq)) [0..<length seq - n + 1]
      else [])"

text \<open>
  The loop of \<open>n_gram_precision\<close>:
  \<^verbatim>\<open>
  for c in candidate_n_gram:
      if c in reference_n_gram:
          match_c += 1
  \<close>
\<close>

fun count_matches :: "'a list list \<Rightarrow> 'a list list \<Rightarrow> nat \<Rightarrow> nat" where
  "count_matches reference_n_gram [] match_c = match_c"
| "count_matches reference_n_gram (c # cs) match_c =
     count_matches reference_n_gram cs
       (if c \<in> set reference_n_gram then match_c + 1 else match_c)"

definition n_gram_precision :: "'a list \<Rightarrow> 'a list \<Rightarrow> nat \<Rightarrow> py_error + real" where
  "n_gram_precision reference candidate n =
     (let reference_n_gram = grouper reference n;
          candidate_n_gram = grouper candidate n;
          len_c = length candidate_n_gram
      in if len_c = 0 then Inr 0
         else truediv (real (count_matches reference_n_gram candidate_n_gram 0))
                      (real len_c))"

definition brevity_penalty :: "'a list \<Rightarrow> 'a list \<Rightarrow> py_error + real" where
  "brevity_penalty reference candidate =
     (let len_r = length reference;
          len_c = length candidate
      in if len_c = 0 then Inr 0
         else case truediv (real len_r) (real len_c) of
                Inl e \<Rightarrow> Inl e
              | Inr breavity \<Rightarrow>
                  if breavity < 1 then Inr 1 else Inr (exp (1 - breavity)))"

text \<open>
  The loop of \<open>BLEU_score\<close> over \<open>range(n+1)\<close>, threading \<open>p_product\<close>:
  \<^verbatim>\<open>
  for i in range(n+1):
      p = n_gram_precision(reference, candidate, i)
      p_product *= p
  \<close>
\<close>

fun precision_loop :: "'a list \<Rightarrow> 'a list \<Rightarrow> nat list \<Rightarrow> real \<Rightarrow> py_error + real" where
  "precision_loop reference candidate [] p_product = Inr p_product"
| "precision_loop reference candidate (i # rest) p_product =
     (case n_gram_precision reference candidate i of
        Inl e \<Rightarrow> Inl e
      | Inr p \<Rightarrow> precision_loop reference candidate rest (p_product * p))"

definition BLEU_score :: "'a list \<Rightarrow> 'a list \<Rightarrow> nat \<Rightarrow> py_error + real" where
  "BLEU_score reference candidate n =
     (case brevity_penalty reference candidate of
        Inl e \<Rightarrow> Inl e
      | Inr bp \<Rightarrow>
     (case precision_loop reference candidate [0..<n + 1] 1 of
        Inl e \<Rightarrow> Inl e
      | Inr p_product \<Rightarrow>
     (case truediv 1 (real n) of
        Inl e \<Rightarrow> Inl e
      | Inr ex \<Rightarrow>
     (case py_pow p_product ex of
        Inl e \<Rightarrow> Inl e
      | Inr r \<Rightarrow> Inr (bp * r)))))"

section \<open>Tensors, hidden states and module attributes (encoder\_decoder.py)\<close>

text \<open>
  A tensor is a nested list in row-major order: a tensor of size \<open>(M, K)\<close> is a list of
  \<open>M\<close> rows of \<open>K\<close> entries. Float entries are real numbers. The theorems state the
  sizes the source's comments give as hypotheses on the lengths of these lists.

  The state of a decoder cell is one tensor for the cell types \<open>gru\<close> and \<open>rnn\<close> and the
  pair \<open>(hidden, cell)\<close> for \<open>lstm\<close>.
\<close>

datatype cell_type = LSTM | GRU | RNN

datatype 'a hidden = Tensor 'a | Pair 'a 'a

record rnn_module =
  cell_type :: cell_type

record encoder_decoder = rnn_module +
  beam_width :: nat
  target_vocab_size :: nat

record decoder = rnn_module +
  hidden_state_size :: nat
  heads :: nat
  W :: "real list list"
  Wtilde :: "real list list"
  Q :: "real list list"

text \<open>
  A match of the cell type and the form of the state, as the decoder's cell yields it.
\<close>

fun state_matches :: "cell_type \<Rightarrow> 'a hidden \<Rightarrow> bool" where
  "state_matches LSTM (Pair h c) = True"
| "state_matches LSTM (Tensor h) = False"
| "state_matches ct (Tensor h) = True"
| "state_matches ct (Pair h c) = False"

section \<open>Beam search: \<open>EncoderDecoder.update_beam\<close>\<close>

text \<open>
  \<open>torch.topk(x, k)\<close> on one row: the \<open>k\<close> largest entries in descending order and
  their positions; it raises when \<open>k\<close> exceeds the length of the row. PyTorch leaves the
  order among equal entries open; here the lower position comes first (\<open>sort_key\<close> is
  stable).
\<close>

definition topk :: "real list \<Rightarrow> nat \<Rightarrow> py_error + (real list \<times> nat list)" where
  "topk xs k =
     (if k > length xs then Inl RuntimeError
      else let indices = take k (sort_key (\<lambda>i. - (xs ! i)) [0..<length xs])
           in Inr (map (\<lambda>i. xs ! i) indices, indices))"

text \<open>\<open>torch.topk(x, k, dim=1)\<close> on a tensor of size \<open>(M, N)\<close>: row by row.\<close>

fun topk_rows :: "real list list \<Rightarrow> nat \<Rightarrow> py_error + (real list list \<times> nat list list)" where
  "topk_rows [] k = Inr ([], [])"
| "topk_rows (xs # rest) k =
     (case topk xs k of
        Inl e \<Rightarrow> Inl e
      | Inr (vals, indices) \<Rightarrow>
          (case topk_rows rest k of
             Inl e \<Rightarrow> Inl e
           | Inr (vs, is) \<Rightarrow> Inr (vals # vs, indices # is)))"

text \<open>
  \<open>logpb_tm1.unsqueeze(-1) + logpy_t\<close>: the entry \<open>[m, k, v]\<close> is
  \<open>logpb_tm1[m, k] + logpy_t[m, k, v]\<close>. The \<open>squeeze(1)\<close> that follows only acts when
  \<open>K = 1\<close> and then leaves the same \<open>V\<close> entries per batch element, which is what
  \<open>flatten(start_dim=1)\<close> yields anyway.
\<close>

definition extensions :: "real list list \<Rightarrow> real list list list \<Rightarrow> real list list list" where
  "extensions logpb_tm1 logpy_t =
     map2 (\<lambda>pb_m py_m. map2 (\<lambda>pb row. map (\<lambda>py. pb + py) row) pb_m py_m)
          logpb_tm1 logpy_t"

text \<open>\<open>torch.flatten(x, start_dim=1)\<close> on a tensor of size \<open>(M, K, V)\<close>.\<close>

definition flatten1 :: "'a list list list \<Rightarrow> 'a list list" where
  "flatten1 x = map concat x"

text \<open>
  \<open>torch.gather\<close> along the hypothesis axis with the index \<open>paths\<close> of size \<open>(M, K)\<close>
  expanded over the other axes: slot \<open>[m, k]\<close> of the result is slot \<open>[m, paths[m, k]]\<close>
  of \<open>x\<close> (a token for \<open>b_tm1_1[i]\<close>, a state vector for \<open>htilde_t\<close>).
  This is \<open>gather\<close> on an \<open>x\<close> of size \<open>(M, K)\<close> with all paths below \<open>K\<close>. On other
  sizes PyTorch's \<open>expand_as\<close>, \<open>gather\<close> or \<open>cat\<close> raise, which the function does
  not model: every theorem on \<open>update_beam\<close> has the sizes \<open>history_sized\<close> and
  \<open>hidden_sized\<close> as hypotheses and shows the paths to be below \<open>K\<close>.
\<close>

definition gather_paths :: "'a list list \<Rightarrow> nat list list \<Rightarrow> 'a list list" where
  "gather_paths x paths = map2 (\<lambda>x_m paths_m. map (\<lambda>p. x_m ! p) paths_m) x paths"

definition beam_paths :: "nat \<Rightarrow> nat list list \<Rightarrow> nat list list" where
  "beam_paths V indices = map (map (\<lambda>i. i div V)) indices"

definition beam_tokens :: "nat \<Rightarrow> nat list list \<Rightarrow> nat list list" where
  "beam_tokens V indices = map (map (\<lambda>i. i mod V)) indices"

text \<open>
  \<^verbatim>\<open>
  extensions_t = (logpb_tm1.unsqueeze(-1) + logpy_t).squeeze(1)
  extensions_flat = torch.flatten(extensions_t, start_dim=1)
  logpb_t, indices = torch.topk(extensions_flat, k=self.beam_width, dim=1)
  paths = indices // self.target_vocab_size
  tokens = indices % self.target_vocab_size
  b_tm1_1_gathered = torch.gather(b_tm1_1, 2, paths.expand_as(b_tm1_1).long())
  b_t_1 = torch.cat([b_tm1_1_gathered, tokens.unsqueeze(0)], dim=0)
  if self.cell_type == 'lstm':
      b_t_0 = (torch.gather(htilde_t[0], 1, ...), torch.gather(htilde_t[1], 1, ...))
  else:
      b_t_0 = torch.gather(htilde_t, 1, ...)
  return b_t_0, b_t_1, logpb_t
  \<close>
  A state whose form does not match the cell type makes \<open>gather\<close> or \<open>expand_as\<close>
  fail in PyTorch.
\<close>

definition beam_select ::
  "encoder_decoder \<Rightarrow> real list list \<Rightarrow> real list list list
     \<Rightarrow> py_error + (real list list \<times> nat list list)" where
  "beam_select self logpb_tm1 logpy_t =
     topk_rows (flatten1 (extensions logpb_tm1 logpy_t)) (beam_width self)"

definition update_beam ::
  "encoder_decoder \<Rightarrow> real list list list hidden \<Rightarrow> nat list list list
     \<Rightarrow> real list list \<Rightarrow> real list list list
     \<Rightarrow> py_error + (real list list list hidden \<times> nat list list list \<times> real list list)" where
  "update_beam self htilde_t b_tm1_1 logpb_tm1 logpy_t =
     (case beam_select self logpb_tm1 logpy_t of
        Inl e \<Rightarrow> Inl e
      | Inr (logpb_t, indices) \<Rightarrow>
          (let paths = beam_paths (target_vocab_size self) indices;
               tokens = beam_tokens (target_vocab_size self) indices;
               b_tm1_1_gathered = map (\<lambda>b_i. gather_paths b_i paths) b_tm1_1;
               b_t_1 = b_tm1_1_gathered @ [tokens]
           in if cell_type self = LSTM
              then (case htilde_t of
                      Pair h c \<Rightarrow>
                        Inr (Pair (gather_paths h paths) (gather_paths c paths), b_t_1, logpb_t)
                    | Tensor h \<Rightarrow> Inl RuntimeError)
              else (case htilde_t of
                      Tensor h \<Rightarrow> Inr (Tensor (gather_paths h paths), b_t_1, logpb_t)
                    | Pair h c \<Rightarrow> Inl TypeError)))"

text \<open>The sizes of the arguments of \<open>update_beam\<close>, from the source's comment:
  \<open>logpb_tm1\<close> is \<open>(M, K)\<close>, \<open>logpy_t\<close> is \<open>(M, K, V)\<close>, \<open>b_tm1_1\<close> is \<open>(t, M, K)\<close>
  and each tensor of \<open>htilde_t\<close> is \<open>(M, K, 2 * H)\<close>.\<close>

definition scores_sized :: "nat \<Rightarrow> nat \<Rightarrow> nat \<Rightarrow> real list list \<Rightarrow> real list list list \<Rightarrow> bool" where
  "scores_sized M K V logpb_tm1 logpy_t \<longleftrightarrow>
     length logpb_tm1 = M \<and> length logpy_t = M \<and>
     list_all (\<lambda>pb_m. length pb_m = K) logpb_tm1 \<and>
     list_all (\<lambda>py_m. length py_m = K \<and> list_all (\<lambda>row. length row = V) py_m) logpy_t"

definition history_sized :: "nat \<Rightarrow> nat \<Rightarrow> nat list list list \<Rightarrow> bool" where
  "history_sized M K b_tm1_1 \<longleftrightarrow>
     list_all (\<lambda>b_i. length b_i = M \<and> list_all (\<lambda>b_im. length b_im = K) b_i) b_tm1_1"

definition state_sized :: "nat \<Rightarrow> nat \<Rightarrow> 'a list list \<Rightarrow> bool" where
  "state_sized M K h \<longleftrightarrow> length h = M \<and> list_all (\<lambda>h_m. length h_m = K) h"

fun hidden_sized :: "nat \<Rightarrow> nat \<Rightarrow> 'a list list hidden \<Rightarrow> bool" where
  "hidden_sized M K (Tensor h) = state_sized M K h"
| "hidden_sized M K (Pair h c) = (state_sized M K h \<and> state_sized M K c)"

section \<open>Attention: \<open>DecoderWithAttention\<close>\<close>

text \<open>
  An energy after masking is a float or \<open>-inf\<close>; \<open>exp(-inf)\<close> is \<open>0\<close>.
\<close>

datatype energy = NegInf | Fin real

fun exp_energy :: "energy \<Rightarrow> real" where
  "exp_energy NegInf = 0"
| "exp_energy (Fin x) = exp x"

text \<open>
  \<^verbatim>\<open>
  htilde_t = htilde_t.unsqueeze(0)
  e_t = torch.nn.functional.cosine_similarity(htilde_t, h, dim=-1)
  \<close>
  \<open>e_t[s, m]\<close> is the similarity of the vectors \<open>htilde_t[m]\<close> and \<open>h[s, m]\<close>. PyTorch's
  \<open>cosine_similarity\<close> of two vectors is a parameter of the model: what follows holds
  for every function of two vectors into the floats.
\<close>

definition get_energy_scores ::
  "(real list \<Rightarrow> real list \<Rightarrow> real) \<Rightarrow> real list list \<Rightarrow> real list list list \<Rightarrow> real list list" where
  "get_energy_scores cosine_similarity htilde_t h =
     map (\<lambda>h_s. map2 cosine_similarity htilde_t h_s) h"

text \<open>
  \<^verbatim>\<open>
  pad_mask = torch.arange(h.shape[0], device=h.device)
  pad_mask = pad_mask.unsqueeze(-1) >= F_lens  # (S, M)
  e_t = e_t.masked_fill(pad_mask, -float('inf'))
  return torch.nn.functional.softmax(e_t, 0)
  \<close>
\<close>

definition pad_mask :: "nat \<Rightarrow> nat list \<Rightarrow> bool list list" where
  "pad_mask S F_lens = map (\<lambda>s. map (\<lambda>len. s \<ge> len) F_lens) [0..<S]"

definition masked_fill :: "real list list \<Rightarrow> bool list list \<Rightarrow> energy list list" where
  "masked_fill e_t padding =
     map2 (\<lambda>e_s pad_s. map2 (\<lambda>e b. if b then NegInf else Fin e) e_s pad_s) e_t padding"

text \<open>
  \<open>softmax(e, 0)\<close> on a tensor of size \<open>(S, M)\<close>: entry \<open>[s, m]\<close> is
  \<open>exp e[s, m] / \<Sum>\<^sub>r exp e[r, m]\<close>. A column of \<open>-inf\<close> only has the sum \<open>0\<close>, and
  PyTorch yields \<open>nan\<close> for its entries: a weight is a \<open>real option\<close> and \<open>None\<close> is
  \<open>nan\<close>.
\<close>

definition softmax0 :: "energy list list \<Rightarrow> real option list list" where
  "softmax0 e =
     map (\<lambda>e_s.
       map (\<lambda>m. let z = sum_list (map (\<lambda>e_r. exp_energy (e_r ! m)) e)
                in if z = 0 then None else Some (exp_energy (e_s ! m) / z))
           [0..<length e_s]) e"

definition get_attention_weights ::
  "(real list \<Rightarrow> real list \<Rightarrow> real) \<Rightarrow> real list list \<Rightarrow> real list list list \<Rightarrow> nat list
     \<Rightarrow> real option list list" where
  "get_attention_weights cosine_similarity htilde_t h F_lens =
     (let e_t = get_energy_scores cosine_similarity htilde_t h;
          padding = pad_mask (length h) F_lens;
          e_t = masked_fill e_t padding
      in softmax0 e_t)"

text \<open>Arithmetic with \<open>nan\<close>: a sum or product with a \<open>nan\<close> operand is \<open>nan\<close>.\<close>

fun nan_add :: "real option \<Rightarrow> real option \<Rightarrow> real option" where
  "nan_add (Some a) (Some b) = Some (a + b)"
| "nan_add a b = None"

definition nan_mul :: "real option \<Rightarrow> real \<Rightarrow> real option" where
  "nan_mul a x = map_option (\<lambda>w. w * x) a"

definition nan_sum :: "real option list \<Rightarrow> real option" where
  "nan_sum xs = foldr nan_add xs (Some 0)"

text \<open>
  \<open>c_t = torch.sum(alpha_t.unsqueeze(2) * h, dim=0)\<close>: \<open>c_t[m, j]\<close> is the sum over
  \<open>s\<close> of \<open>alpha_t[s, m] * h[s, m, j]\<close>. Its size \<open>(M, H)\<close> is that of \<open>h[s]\<close>, which is
  the size of \<open>htilde_t\<close>; the model reads it off \<open>htilde_t\<close>, so that an empty \<open>h\<close>
  (\<open>S = 0\<close>) gives the zero tensor of that size, as in PyTorch.
\<close>

definition weighted_sum ::
  "real option list list \<Rightarrow> real list list list \<Rightarrow> real list list \<Rightarrow> real option list list" where
  "weighted_sum alpha_t h htilde_t =
     map (\<lambda>m.
       map (\<lambda>j. nan_sum (map (\<lambda>s. nan_mul (alpha_t ! s ! m) (h ! s ! m ! j)) [0..<length h]))
           [0..<length (htilde_t ! m)])
         [0..<length htilde_t]"

definition attend_tensor ::
  "(real list \<Rightarrow> real list \<Rightarrow> real) \<Rightarrow> real list list \<Rightarrow> real list list list \<Rightarrow> nat list
     \<Rightarrow> real option list list" where
  "attend_tensor cosine_similarity htilde_t h F_lens =
     (let alpha_t = get_attention_weights cosine_similarity htilde_t h F_lens
      in weighted_sum alpha_t h htilde_t)"

text \<open>
  \<^verbatim>\<open>
  if self.cell_type == 'lstm':
      htilde_t = htilde_t[0]
  alpha_t = self.get_attention_weights(htilde_t, h, F_lens)
  c_t = torch.sum(alpha_t.unsqueeze(2) * h, dim=0)
  return c_t
  \<close>
  A pair given to a decoder that is not an LSTM fails at \<open>unsqueeze\<close>. A single tensor
  given to an LSTM decoder is outside the documented input: Python would take its first
  batch row for the state; the model marks the case as an error and no theorem is about it.
\<close>

definition attend ::
  "(real list \<Rightarrow> real list \<Rightarrow> real) \<Rightarrow> 'a rnn_module_scheme \<Rightarrow> real list list hidden
     \<Rightarrow> real list list list \<Rightarrow> nat list \<Rightarrow> py_error + real option list list" where
  "attend cosine_similarity self htilde_t h F_lens =
     (if cell_type self = LSTM
      then (case htilde_t of
              Pair hid cell \<Rightarrow> Inr (attend_tensor cosine_similarity hid h F_lens)
            | Tensor hid \<Rightarrow> Inl TypeError)
      else (case htilde_t of
              Tensor hid \<Rightarrow> Inr (attend_tensor cosine_similarity hid h F_lens)
            | Pair hid cell \<Rightarrow> Inl AttributeError))"

section \<open>Multi-head attention: \<open>DecoderWithMultiHeadAttention.attend\<close>\<close>

text \<open>
  \<open>torch.nn.Linear(n, n, bias=False)\<close> with weight matrix \<open>A\<close> (one row per output
  feature) on a vector: \<open>y[j] = \<Sum>\<^sub>i A[j, i] * x[i]\<close>. On a context vector a \<open>nan\<close> entry
  makes every output \<open>nan\<close>.
\<close>

definition linear :: "real list list \<Rightarrow> real list \<Rightarrow> real list" where
  "linear A x = map (\<lambda>row. sum_list (map2 (\<lambda>a b. a * b) row x)) A"

definition nan_linear :: "real list list \<Rightarrow> real option list \<Rightarrow> real option list" where
  "nan_linear A x = map (\<lambda>row. nan_sum (map2 (\<lambda>a c. nan_mul c a) row x)) A"

definition identity_matrix :: "nat \<Rightarrow> real list list" where
  "identity_matrix n = map (\<lambda>i. map (\<lambda>j. if i = j then 1 else 0) [0..<n]) [0..<n]"

text \<open>
  \<open>x.view(r, c)\<close> and \<open>x.view(a, b, c)\<close> regroup the row-major data of \<open>x\<close>; they raise
  when the sizes do not multiply to the number of entries.
\<close>

definition view2 :: "nat \<Rightarrow> nat \<Rightarrow> 'a list \<Rightarrow> py_error + 'a list list" where
  "view2 r c flat =
     (if r * c \<noteq> length flat then Inl RuntimeError
      else Inr (map (\<lambda>i. take c (drop (i * c) flat)) [0..<r]))"

definition view3 :: "nat \<Rightarrow> nat \<Rightarrow> nat \<Rightarrow> 'a list \<Rightarrow> py_error + 'a list list list" where
  "view3 a b c flat =
     (if a * b * c \<noteq> length flat then Inl RuntimeError
      else Inr (map (\<lambda>i. map (\<lambda>j. take c (drop (i * b * c + j * c) flat)) [0..<b]) [0..<a]))"

definition repeat_interleave :: "'a list \<Rightarrow> nat \<Rightarrow> 'a list" where
  "repeat_interleave xs n = concat (map (replicate n) xs)"

text \<open>
  The query of \<open>attend\<close>: \<open>M\<close> and \<open>htilde_t_input\<close>.
  \<^verbatim>\<open>
  if self.cell_type == 'lstm':
      M = htilde_t[0].shape[0]
      htilde_t_input = (self.Wtilde(htilde_t[0]).view(M * self.heads,
          int(self.hidden_state_size / self.heads)), htilde_t[1])
  else:
      M = htilde_t.shape[0]
      htilde_t_input = self.Wtilde(htilde_t).view(M * self.heads,
          int(self.hidden_state_size / self.heads))
  \<close>
\<close>

definition split_heads ::
  "decoder \<Rightarrow> real list list \<Rightarrow> py_error + real list list" where
  "split_heads self hid =
     (if heads self = 0 then Inl ZeroDivisionError
      else view2 (length hid * heads self) (hidden_state_size self div heads self)
             (concat (map (linear (Wtilde self)) hid)))"

definition query_input ::
  "decoder \<Rightarrow> real list list hidden \<Rightarrow> py_error + (nat \<times> real list list hidden)" where
  "query_input self htilde_t =
     (if cell_type self = LSTM
      then (case htilde_t of
              Pair hid cell \<Rightarrow>
                (case split_heads self hid of
                   Inl e \<Rightarrow> Inl e
                 | Inr v \<Rightarrow> Inr (length hid, Pair v cell))
            | Tensor hid \<Rightarrow> Inl TypeError)
      else (case htilde_t of
              Tensor hid \<Rightarrow>
                (case split_heads self hid of
                   Inl e \<Rightarrow> Inl e
                 | Inr v \<Rightarrow> Inr (length hid, Tensor v))
            | Pair hid cell \<Rightarrow> Inl AttributeError))"

text \<open>
  \<^verbatim>\<open>
  S = h.shape[0]
  ...
  h_input = self.W(h).view(S, M * self.heads, int(self.hidden_state_size / self.heads))
  F_lens_input = F_lens.repeat_interleave(self.heads)
  c_t = (super().attend(htilde_t_input, h_input, F_lens_input)).view(M, self.hidden_state_size)
  return self.Q(c_t)
  \<close>
\<close>

definition mh_attend ::
  "(real list \<Rightarrow> real list \<Rightarrow> real) \<Rightarrow> decoder \<Rightarrow> real list list hidden
     \<Rightarrow> real list list list \<Rightarrow> nat list \<Rightarrow> py_error + real option list list" where
  "mh_attend cosine_similarity self htilde_t h F_lens =
     (let S = length h
      in case query_input self htilde_t of
           Inl e \<Rightarrow> Inl e
         | Inr (M, htilde_t_input) \<Rightarrow>
        (case view3 S (M * heads self) (hidden_state_size self div heads self)
                (concat (map concat (map (map (linear (W self))) h))) of
           Inl e \<Rightarrow> Inl e
         | Inr h_input \<Rightarrow>
        (let F_lens_input = repeat_interleave F_lens (heads self)
         in case attend cosine_similarity self htilde_t_input h_input F_lens_input of
              Inl e \<Rightarrow> Inl e
            | Inr c \<Rightarrow>
           (case view2 M (hidden_state_size self) (concat c) of
              Inl e \<Rightarrow> Inl e
            | Inr c_t \<Rightarrow> Inr (map (nan_linear (Q self)) c_t)))))"

text \<open>The sizes of the arguments of the attention functions: \<open>htilde_t\<close> is \<open>(M, H)\<close>,
  \<open>h\<close> is \<open>(S, M, H)\<close> and \<open>F_lens\<close> is \<open>(M)\<close>.\<close>

definition attention_sized ::
  "nat \<Rightarrow> nat \<Rightarrow> real list list \<Rightarrow> real list list list \<Rightarrow> nat list \<Rightarrow> bool" where
  "attention_sized M H htilde_t h F_lens \<longleftrightarrow>
     state_sized M H htilde_t \<and> list_all (state_sized M H) h \<and> length F_lens = M"

fun query_state :: "real list list hidden \<Rightarrow> real list list" where
  "query_state (Tensor hid) = hid"
| "query_state (Pair hid cell) = hid"

text \<open>A sample similarity of two vectors, for concrete inputs: their dot product.\<close>

definition dot_product :: "real list \<Rightarrow> real list \<Rightarrow> real" where
  "dot_product x y = sum_list (map2 (\<lambda>a b. a * b) x y)"

section \<open>Properties of the BLEU scorer\<close>

lemma length_grouper:
  "length (grouper seq n) = (if n \<le> length seq then length seq - n + 1 else 0)"
  by (simp add: grouper_def)

lemma grouper_zero: "grouper seq 0 = replicate (length seq + 1) []"
  by (simp add: grouper_def map_replicate_const)

lemma grouper_Nil_pos: "0 < n \<Longrightarrow> grouper [] n = []"
  by (simp add: grouper_def)

lemma count_matches_filter:
  "count_matches rs cs k = k + length (filter (\<lambda>c. c \<in> set rs) cs)"
  by (induction cs arbitrary: k) auto

text \<open>The precision as a plain number: the guard on \<open>len_c\<close> keeps the division safe.\<close>

lemma n_gram_precision_value:
  "n_gram_precision r c n =
     Inr (if grouper c n = [] then 0
          else real (length (filter (\<lambda>g. g \<in> set (grouper r n)) (grouper c n)))
               / real (length (grouper c n)))"
  by (simp add: n_gram_precision_def Let_def truediv_def count_matches_filter)

lemma n_gram_precision_total: "\<exists>p. n_gram_precision r c n = Inr p \<and> 0 \<le> p \<and> p \<le> 1"
proof (cases "grouper c n = []")
  case True
  then show ?thesis by (simp add: n_gram_precision_value)
next
  case False
  let ?m = "length (filter (\<lambda>g. g \<in> set (grouper r n)) (grouper c n))"
  have "?m \<le> length (grouper c n)" by (rule length_filter_le)
  moreover have "0 < length (grouper c n)" using False by simp
  ultimately have "real ?m / real (length (grouper c n)) \<le> 1" by simp
  then show ?thesis using False by (simp add: n_gram_precision_value)
qed

lemma n_gram_precision_zero_order: "n_gram_precision r c 0 = Inr 1"
proof -
  have "filter (\<lambda>g. g \<in> set (grouper r 0)) (grouper c 0) = grouper c 0"
    by (simp add: grouper_zero)
  then show ?thesis
    by (simp add: n_gram_precision_value) (simp add: grouper_zero)
qed

lemma brevity_penalty_value:
  "brevity_penalty r c =
     Inr (if length c = 0 then 0
          else if real (length r) / real (length c) < 1 then 1
          else exp (1 - real (length r) / real (length c)))"
  by (simp add: brevity_penalty_def Let_def truediv_def)

lemma precision_loop_prod:
  "(\<forall>i. n_gram_precision r c i = Inr (p i)) \<Longrightarrow>
   precision_loop r c js acc = Inr (acc * prod_list (map p js))"
  by (induction js arbitrary: acc) (simp_all add: mult.assoc)

lemma prod_list_upt: "prod_list (map p [0..<n + 1]) = (\<Prod>i = 0..n. (p i :: real))"
proof -
  have "prod p {0..n} = prod p (set [0..<n + 1])"
    by (rule arg_cong[where f = "prod p"]) auto
  also have "\<dots> = prod_list (map p [0..<n + 1])"
    by (rule prod.distinct_set_conv_list) simp
  finally show ?thesis by (rule sym)
qed

lemma in_set_grouper:
  "w \<in> set (grouper s n) \<longleftrightarrow>
     n \<le> length s \<and> (\<exists>i \<le> length s - n. w = take n (drop i s))"
  unfolding grouper_def
  by (auto simp del: upt_Suc simp: less_Suc_eq_le image_iff)

lemma set_grouper: "set (grouper s n) = {w. sublist w s \<and> length w = n}"
proof (intro set_eqI iffI)
  fix w assume "w \<in> set (grouper s n)"
  then obtain i where i: "n \<le> length s" "i \<le> length s - n" "w = take n (drop i s)"
    by (auto simp: in_set_grouper)
  have "s = take i s @ w @ drop (i + n) s"
    using i by (metis add.commute append_take_drop_id drop_drop)
  then have "sublist w s" unfolding sublist_def by blast
  moreover have "length w = n" using i by simp
  ultimately show "w \<in> {w. sublist w s \<and> length w = n}" by simp
next
  fix w assume "w \<in> {w. sublist w s \<and> length w = n}"
  then obtain ps ss where s: "s = ps @ w @ ss" and l: "length w = n"
    unfolding sublist_def by blast
  have "w = take n (drop (length ps) s)" using s l by simp
  moreover have "n \<le> length s" "length ps \<le> length s - n" using s l by simp_all
  ultimately show "w \<in> set (grouper s n)"
    unfolding in_set_grouper by blast
qed

lemma length_filter_sum_count:
  "length (filter P xs) = (\<Sum>g\<in>set xs \<inter> {g. P g}. count_list xs g)"
proof -
  have "sum (count_list (filter P xs)) (set (filter P xs)) = length (filter P xs)"
    by (rule sum_count_set) simp_all
  moreover have "\<And>g. count_list (filter P xs) g = (if P g then count_list xs g else 0)"
    by (induction xs) auto
  moreover have "set (filter P xs) = set xs \<inter> {g. P g}" by auto
  ultimately show ?thesis by simp
qed

lemma precision_loop_nonneg:
  "0 \<le> acc \<Longrightarrow> \<exists>q. precision_loop r c js acc = Inr q \<and> 0 \<le> q"
proof (induction js arbitrary: acc)
  case Nil
  then show ?case by simp
next
  case (Cons j js)
  obtain p where p: "n_gram_precision r c j = Inr p" "0 \<le> p"
    using n_gram_precision_total by blast
  then have "0 \<le> acc * p" using Cons.prems by simp
  from Cons.IH[OF this] show ?case using p by simp
qed

lemma n_gram_precision_empty_pos: "0 < n \<Longrightarrow> n_gram_precision r [] n = Inr 0"
  by (simp add: n_gram_precision_value grouper_Nil_pos)

text \<open>
  The values asserted by the repository's test (\<open>test_bleu_score.py\<close>): unigram
  precision \<open>15 / 18\<close>, bigram precision \<open>8 / 17\<close> and brevity penalty \<open>1\<close>.
\<close>

lemma test_bleu_unigram:
  "n_gram_precision
     [''it'', ''is'', ''a'', ''guide'', ''to'', ''action'', ''that'', ''ensures'', ''that'',
      ''the'', ''military'', ''will'', ''always'', ''heed'', ''party'', ''commands'']
     [''it'', ''is'', ''a'', ''guide'', ''to'', ''action'', ''which'', ''ensures'', ''that'',
      ''the'', ''military'', ''always'', ''obeys'', ''the'', ''commands'', ''of'', ''the'',
      ''party''] 1 = Inr (15 / 18)"
  by code_simp

lemma test_bleu_bigram:
  "n_gram_precision
     [''it'', ''is'', ''a'', ''guide'', ''to'', ''action'', ''that'', ''ensures'', ''that'',
      ''the'', ''military'', ''will'', ''always'', ''heed'', ''party'', ''commands'']
     [''it'', ''is'', ''a'', ''guide'', ''to'', ''action'', ''which'', ''ensures'', ''that'',
      ''the'', ''military'', ''always'', ''obeys'', ''the'', ''commands'', ''of'', ''the'',
      ''party''] 2 = Inr (8 / 17)"
  by code_simp

lemma test_bleu_brevity:
  "brevity_penalty
     [''it'', ''is'', ''a'', ''guide'', ''to'', ''action'', ''that'', ''ensures'', ''that'',
      ''the'', ''military'', ''will'', ''always'', ''heed'', ''party'', ''commands'']
     [''it'', ''is'', ''a'', ''guide'', ''to'', ''action'', ''which'', ''ensures'', ''that'',
      ''the'', ''military'', ''always'', ''obeys'', ''the'', ''commands'', ''of'', ''the'',
      ''party''] = Inr 1"
  by (simp add: brevity_penalty_value)

text \<open>
  Claim C10. For every sequence, \<open>grouper seq 0\<close> is a list of \<open>len(seq) + 1\<close>
  empty windows and never the empty list; hence the precision of order \<open>0\<close> is \<open>1\<close>
  for every reference and every candidate, the empty candidate included, and the first
  factor that \<open>BLEU_score\<close> multiplies into \<open>p_product\<close> is exactly \<open>1\<close>.
\<close>

theorem grouper_zero_windows:
  "grouper seq 0 = replicate (length seq + 1) [] \<and>
   length (grouper seq 0) = length seq + 1 \<and>
   grouper seq 0 \<noteq> [] \<and>
   n_gram_precision reference candidate 0 = Inr 1 \<and>
   n_gram_precision reference [] 0 = Inr 1 \<and>
   precision_loop reference candidate [0..<max_n + 1] 1 =
     precision_loop reference candidate [1..<max_n + 1] (1 * 1)"
proof -
  have "[0..<max_n + 1] = 0 # [1..<max_n + 1]"
    by (simp add: upt_rec)
  then have "precision_loop reference candidate [0..<max_n + 1] 1 =
     precision_loop reference candidate [1..<max_n + 1] (1 * 1)"
    by (simp add: n_gram_precision_zero_order)
  then show ?thesis
    by (simp add: grouper_zero n_gram_precision_zero_order)
qed

text \<open>
  Claim C9. For every reference and every \<open>max_n \<ge> 1\<close>, an empty candidate gives
  brevity penalty \<open>0\<close> and BLEU score \<open>0\<close>; every function returns a value
  (\<open>Inr\<close>), so no division by zero is raised: \<open>n_gram_precision\<close> returns for every
  order and \<open>grouper\<close> is a plain list.
\<close>

theorem empty_candidate_scores_zero:
  assumes "1 \<le> max_n"
  shows "brevity_penalty reference [] = Inr 0 \<and>
         BLEU_score reference [] max_n = Inr 0 \<and>
         (\<forall>n. \<exists>p. n_gram_precision reference [] n = Inr p) \<and>
         (\<forall>n. grouper ([] :: 'a list) n = (if n = 0 then [[]] else []))"
proof -
  have bp: "brevity_penalty reference [] = Inr 0"
    by (simp add: brevity_penalty_value)
  obtain p where p: "\<forall>i. n_gram_precision reference [] i = Inr (p i)"
    using n_gram_precision_total[of reference "[]"] by metis
  have one: "p 1 = 0"
    using p n_gram_precision_empty_pos[of 1 reference] by simp
  have "1 \<in> set [0..<max_n + 1]" using assms by (simp del: upt_Suc)
  then have "prod_list (map p [0..<max_n + 1]) = 0"
    using one by (simp only: prod_list_zero_iff set_map) force
  then have "precision_loop reference [] [0..<max_n + 1] 1 = Inr 0"
    using precision_loop_prod[OF p, of "[0..<max_n + 1]" 1] by simp
  then have "BLEU_score reference [] max_n = Inr 0"
    using assms bp by (simp add: BLEU_score_def truediv_def py_pow_def)
  moreover have "\<forall>n. grouper ([] :: 'a list) n = (if n = 0 then [[]] else [])"
    by (simp add: grouper_def)
  ultimately show ?thesis using bp p by blast
qed

theorem empty_candidate_scores_zero_witness:
  "brevity_penalty [1, 2 :: nat] [] = Inr 0 \<and> BLEU_score [1, 2 :: nat] [] 2 = Inr 0"
proof -
  have "(1 :: nat) \<le> 2" by simp
  from empty_candidate_scores_zero[OF this, of "[1, 2 :: nat]"] show ?thesis by blast
qed

text \<open>
  Claim C6 as stated asks for \<open>0\<close> when the candidate is empty and for \<open>1\<close> whenever
  the candidate is at least as long as the reference. Both apply to an empty candidate
  with an empty reference; the guard on \<open>len_c\<close> comes first and the code returns \<open>0\<close>.
\<close>

theorem brevity_penalty_overlap_counterexample:
  "length ([] :: nat list) \<ge> length ([] :: nat list) \<and>
   brevity_penalty ([] :: nat list) ([] :: nat list) = Inr 0 \<and>
   brevity_penalty ([] :: nat list) ([] :: nat list) \<noteq> Inr 1"
  by (simp add: brevity_penalty_value)

text \<open>
  Claim C6, amended. \<open>brevity_penalty\<close> returns \<open>0\<close> when the candidate is empty;
  returns exactly \<open>1\<close> whenever the candidate is non-empty and at least as long as the
  reference (the boundary of equal lengths included, where the code takes the \<open>exp\<close>
  branch and \<open>exp 0 = 1\<close>); and returns \<open>exp (1 - len_r / len_c)\<close> when
  \<open>0 < len_c < len_r\<close>.
\<close>

theorem brevity_penalty_cases:
  "(length candidate = 0 \<longrightarrow> brevity_penalty reference candidate = Inr 0) \<and>
   (0 < length candidate \<and> length candidate \<ge> length reference \<longrightarrow>
      brevity_penalty reference candidate = Inr 1) \<and>
   (0 < length candidate \<and> length candidate < length reference \<longrightarrow>
      brevity_penalty reference candidate =
        Inr (exp (1 - real (length reference) / real (length candidate))))"
proof (intro conjI impI)
  show "brevity_penalty reference candidate = Inr 0" if "length candidate = 0"
    using that by (simp add: brevity_penalty_value)
next
  assume a: "0 < length candidate \<and> length candidate \<ge> length reference"
  show "brevity_penalty reference candidate = Inr 1"
  proof (cases "length reference = length candidate")
    case True
    then show ?thesis using a by (simp add: brevity_penalty_value)
  next
    case False
    then have "real (length reference) / real (length candidate) < 1" using a by simp
    then show ?thesis using a by (simp add: brevity_penalty_value)
  qed
next
  assume a: "0 < length candidate \<and> length candidate < length reference"
  then have "\<not> real (length reference) / real (length candidate) < 1" by simp
  then show "brevity_penalty reference candidate =
        Inr (exp (1 - real (length reference) / real (length candidate)))"
    using a by (simp add: brevity_penalty_value)
qed

theorem brevity_penalty_cases_witness:
  "brevity_penalty [1 :: nat] [] = Inr 0 \<and>
   brevity_penalty [1, 2 :: nat] [3, 4] = Inr 1 \<and>
   brevity_penalty [1, 2 :: nat] [3, 4, 5] = Inr 1 \<and>
   brevity_penalty [1, 2 :: nat] [3] = Inr (exp (1 - 2 / 1))"
  using brevity_penalty_cases[of "[]" "[1 :: nat]"]
        brevity_penalty_cases[of "[3, 4]" "[1, 2 :: nat]"]
        brevity_penalty_cases[of "[3, 4, 5]" "[1, 2 :: nat]"]
        brevity_penalty_cases[of "[3]" "[1, 2 :: nat]"]
  by simp

lemma grouper_nonempty_iff: "grouper s n \<noteq> [] \<longleftrightarrow> n \<le> length s"
  by (simp add: grouper_def)

lemma grouper_nth:
  "n \<le> length s \<Longrightarrow> i < length s - n + 1 \<Longrightarrow> grouper s n ! i = take n (drop i s)"
  unfolding grouper_def by (simp del: upt_Suc)

lemma matching_positions:
  assumes "n \<le> length c"
  shows "length (filter (\<lambda>g. g \<in> set (grouper r n)) (grouper c n)) =
         card {i. i + n \<le> length c \<and> sublist (take n (drop i c)) r}"
proof -
  have "{i. i < length (grouper c n) \<and> grouper c n ! i \<in> set (grouper r n)} =
        {i. i + n \<le> length c \<and> sublist (take n (drop i c)) r}"
  proof (intro set_eqI iffI; clarify)
    fix i assume i: "i < length (grouper c n)" and m: "grouper c n ! i \<in> set (grouper r n)"
    have i': "i < length c - n + 1" using i assms by (simp add: length_grouper)
    then have "grouper c n ! i = take n (drop i c)" using assms by (simp add: grouper_nth)
    then have "sublist (take n (drop i c)) r" using m by (simp add: set_grouper)
    moreover have "i + n \<le> length c" using i' assms by simp
    ultimately show "i + n \<le> length c \<and> sublist (take n (drop i c)) r" by simp
  next
    fix i assume le: "i + n \<le> length c" and sub: "sublist (take n (drop i c)) r"
    have i': "i < length c - n + 1" using le by simp
    have nth: "grouper c n ! i = take n (drop i c)" using assms i' by (simp add: grouper_nth)
    have "length (take n (drop i c)) = n" using le by simp
    then have "grouper c n ! i \<in> set (grouper r n)" using sub nth by (simp add: set_grouper)
    moreover have "i < length (grouper c n)" using i' assms by (simp add: length_grouper)
    ultimately show "i < length (grouper c n) \<and> grouper c n ! i \<in> set (grouper r n)" by simp
  qed
  then show ?thesis by (simp add: length_filter_conv_card)
qed

text \<open>
  Claim C7. For \<open>n \<ge> 1\<close> and a candidate with at least one n-gram: the candidate's
  n-grams are its windows \<open>candidate[i:i+n]\<close> for \<open>i = 0 .. len(candidate) - n\<close>, each
  of length \<open>n\<close>, and the n-grams of a sequence are exactly its contiguous sublists of
  length \<open>n\<close>. The precision is the number of candidate n-grams, counted with
  multiplicity, that are members of the reference's n-grams, divided by the number of
  candidate n-grams; that is, the number of positions \<open>i\<close> whose window of length \<open>n\<close>
  occurs somewhere in the reference, divided by \<open>len(candidate) - n + 1\<close>. Membership is
  not clipped: the number of matches is the sum, over the distinct candidate n-grams found
  in the reference, of their multiplicity in the candidate, whatever their multiplicity
  in the reference.
\<close>

theorem n_gram_precision_unclipped:
  assumes "1 \<le> n" and "grouper candidate n \<noteq> []"
  shows "n \<le> length candidate \<and>
         grouper candidate n =
           map (\<lambda>i. take n (drop i candidate)) [0..<length candidate - n + 1] \<and>
         (\<forall>i < length (grouper candidate n). length (grouper candidate n ! i) = n) \<and>
         set (grouper candidate n) = {w. sublist w candidate \<and> length w = n} \<and>
         set (grouper reference n) = {w. sublist w reference \<and> length w = n} \<and>
         n_gram_precision reference candidate n =
           Inr (real (length (filter (\<lambda>g. g \<in> set (grouper reference n))
                                     (grouper candidate n)))
                / real (length (grouper candidate n))) \<and>
         length (filter (\<lambda>g. g \<in> set (grouper reference n)) (grouper candidate n)) =
           (\<Sum>g \<in> set (grouper candidate n) \<inter> set (grouper reference n).
              count_list (grouper candidate n) g) \<and>
         n_gram_precision reference candidate n =
           Inr (real (card {i. i + n \<le> length candidate \<and>
                               sublist (take n (drop i candidate)) reference})
                / real (length candidate - n + 1))"
proof -
  have le: "n \<le> length candidate" using assms(2) by (simp add: grouper_nonempty_iff)
  have g: "grouper candidate n =
           map (\<lambda>i. take n (drop i candidate)) [0..<length candidate - n + 1]"
    using le by (simp add: grouper_def)
  have len: "\<forall>i < length (grouper candidate n). length (grouper candidate n ! i) = n"
  proof (intro allI impI)
    fix i assume "i < length (grouper candidate n)"
    then have "grouper candidate n ! i \<in> set (grouper candidate n)" by simp
    then show "length (grouper candidate n ! i) = n" by (simp add: set_grouper)
  qed
  have "set (grouper candidate n) \<inter> {g. g \<in> set (grouper reference n)} =
        set (grouper candidate n) \<inter> set (grouper reference n)" by auto
  then have cnt: "length (filter (\<lambda>g. g \<in> set (grouper reference n)) (grouper candidate n)) =
           (\<Sum>g \<in> set (grouper candidate n) \<inter> set (grouper reference n).
              count_list (grouper candidate n) g)"
    using length_filter_sum_count[of "\<lambda>g. g \<in> set (grouper reference n)" "grouper candidate n"]
    by simp
  have p: "n_gram_precision reference candidate n =
           Inr (real (length (filter (\<lambda>g. g \<in> set (grouper reference n))
                                     (grouper candidate n)))
                / real (length (grouper candidate n)))"
    using assms(2) by (simp add: n_gram_precision_value)
  have lg: "length (grouper candidate n) = length candidate - n + 1"
    using le by (simp add: length_grouper)
  have pos: "n_gram_precision reference candidate n =
           Inr (real (card {i. i + n \<le> length candidate \<and>
                               sublist (take n (drop i candidate)) reference})
                / real (length candidate - n + 1))"
    unfolding p matching_positions[OF le] lg ..
  show ?thesis
    using le g len set_grouper[of candidate n] set_grouper[of reference n] p cnt pos
    by (intro conjI)
qed

theorem n_gram_precision_unclipped_witness:
  "n_gram_precision [5, 7, 5 :: nat] [5, 7, 5, 7] 2 = Inr 1 \<and>
   grouper [5, 7, 5, 7 :: nat] 2 = [[5, 7], [7, 5], [5, 7]] \<and>
   count_list (grouper [5, 7, 5 :: nat] 2) [5, 7] = 1 \<and>
   count_list (grouper [5, 7, 5, 7 :: nat] 2) [5, 7] = 2 \<and>
   n_gram_precision [3, 4 :: nat] [4, 3] 2 = Inr 0"
proof -
  have g: "grouper [5, 7, 5, 7 :: nat] 2 = [[5, 7], [7, 5], [5, 7]]"
          "grouper [5, 7, 5 :: nat] 2 = [[5, 7], [7, 5]]"
          "grouper [4, 3 :: nat] 2 = [[4, 3]]"
          "grouper [3, 4 :: nat] 2 = [[3, 4]]"
    by (simp_all add: grouper_def upt_rec)
  have a: "(1 :: nat) \<le> 2" by simp
  have b: "grouper [5, 7, 5, 7 :: nat] 2 \<noteq> []" unfolding g by simp
  have b': "grouper [4, 3 :: nat] 2 \<noteq> []" unfolding g by simp
  note t1 = n_gram_precision_unclipped[OF a b, of "[5, 7, 5]"]
  note t2 = n_gram_precision_unclipped[OF a b', of "[3, 4]"]
  have "n_gram_precision [5, 7, 5 :: nat] [5, 7, 5, 7] 2 =
           Inr (real (length (filter (\<lambda>g. g \<in> set (grouper [5, 7, 5 :: nat] 2))
                                     (grouper [5, 7, 5, 7] 2)))
                / real (length (grouper [5, 7, 5, 7 :: nat] 2)))"
    using t1 by (elim conjE)
  then have p1: "n_gram_precision [5, 7, 5 :: nat] [5, 7, 5, 7] 2 = Inr 1"
    unfolding g by simp
  have "n_gram_precision [3, 4 :: nat] [4, 3] 2 =
           Inr (real (length (filter (\<lambda>g. g \<in> set (grouper [3, 4 :: nat] 2))
                                     (grouper [4, 3] 2)))
                / real (length (grouper [4, 3 :: nat] 2)))"
    using t2 by (elim conjE)
  then have p2: "n_gram_precision [3, 4 :: nat] [4, 3] 2 = Inr 0"
    unfolding g by simp
  show ?thesis using p1 p2 unfolding g by simp
qed

text \<open>
  Claim C5. For \<open>max_n \<ge> 1\<close>, \<open>BLEU_score\<close> returns the brevity penalty times the
  product of the precisions of the orders \<open>0..max_n\<close> (each computed by
  \<open>n_gram_precision\<close>, the order \<open>0\<close> included) raised to the power \<open>1 / max_n\<close>;
  if one of these precisions is \<open>0\<close> the score is \<open>0\<close>.
\<close>

theorem BLEU_score_formula:
  assumes "1 \<le> max_n"
  shows "\<exists>bp p. brevity_penalty reference candidate = Inr bp \<and>
           (\<forall>i. n_gram_precision reference candidate i = Inr (p i)) \<and>
           BLEU_score reference candidate max_n =
             Inr (bp * (\<Prod>i = 0..max_n. p i) powr (1 / real max_n)) \<and>
           ((\<exists>i \<le> max_n. p i = 0) \<longrightarrow> BLEU_score reference candidate max_n = Inr 0)"
proof -
  obtain bp where bp: "brevity_penalty reference candidate = Inr bp"
    by (simp add: brevity_penalty_value)
  obtain p where p: "\<forall>i. n_gram_precision reference candidate i = Inr (p i)"
    using n_gram_precision_total[of reference candidate] by metis
  have loop: "precision_loop reference candidate [0..<max_n + 1] 1 = Inr (\<Prod>i = 0..max_n. p i)"
    using precision_loop_prod[OF p, of "[0..<max_n + 1]" 1] prod_list_upt[of p max_n]
    by simp
  have ex: "1 / real max_n \<noteq> 0" "real max_n \<noteq> 0" using assms by simp_all
  have score: "BLEU_score reference candidate max_n =
             Inr (bp * (\<Prod>i = 0..max_n. p i) powr (1 / real max_n))"
    unfolding BLEU_score_def bp loop using ex
    by (simp add: truediv_def py_pow_def)
  have zero: "BLEU_score reference candidate max_n = Inr 0" if "\<exists>i \<le> max_n. p i = 0"
  proof -
    have "(\<Prod>i = 0..max_n. p i) = 0" using that by auto
    then show ?thesis using score by simp
  qed
  show ?thesis using bp p score zero by blast
qed

theorem BLEU_score_formula_witness:
  "BLEU_score [1, 2 :: nat] [3] 1 = Inr 0"
proof -
  obtain bp p where p: "\<forall>i. n_gram_precision [1, 2 :: nat] [3] i = Inr (p i)"
    and z: "(\<exists>i \<le> 1. p i = 0) \<longrightarrow> BLEU_score [1, 2 :: nat] [3] 1 = Inr 0"
    using BLEU_score_formula[of 1 "[1, 2 :: nat]" "[3]"] by auto
  have "n_gram_precision [1, 2 :: nat] [3] 1 = Inr 0"
    by (simp add: n_gram_precision_value grouper_def)
  then have "p 1 = 0" using p by simp
  then show ?thesis using z by blast
qed

text \<open>
  Claim C4 says that the precision is \<open>0\<close> for an empty candidate at every order
  \<open>n \<ge> 0\<close>, as the docstring of \<open>n_gram_precision\<close> does. At order \<open>0\<close>, which
  \<open>BLEU_score\<close> passes first, the empty candidate has the one empty window, the guard
  on \<open>len_c\<close> does not fire, and the code returns \<open>1\<close>. (The range \<open>[0, 1]\<close> holds at
  every order, \<open>n_gram_precision_total\<close>, and the value is \<open>0\<close> at every order
  \<open>n \<ge> 1\<close>, \<open>n_gram_precision_empty_pos\<close>.)
\<close>

theorem n_gram_precision_empty_candidate_order_zero:
  "n_gram_precision [1 :: nat] [] 0 = Inr 1 \<and> n_gram_precision [1 :: nat] [] 0 \<noteq> Inr 0"
  by (simp add: n_gram_precision_zero_order)

section \<open>Properties of the beam update\<close>

lemma map_sort_key: "map f (sort_key f ys) = sort (map f ys)"
proof (rule sym, rule properties_for_sort)
  show "mset (map f (sort_key f ys)) = mset (map f ys)" by simp
  show "sorted (map f (sort_key f ys))" by (rule sorted_sort_key)
qed

lemma sort_map_uminus: "sort (map uminus xs) = map uminus (rev (sort (xs :: real list)))"
proof (rule properties_for_sort)
  show "mset (map uminus (rev (sort xs))) = mset (map uminus xs)" by simp
  have "sorted_wrt (\<lambda>x y. y \<le> x) (rev (sort xs))"
    by (simp add: sorted_wrt_rev)
  then show "sorted (map uminus (rev (sort xs)))"
    by (simp add: sorted_map)
qed

lemma nth_sort_key_desc:
  "map (\<lambda>i. xs ! i) (sort_key (\<lambda>i. - (xs ! i)) [0..<length xs]) = rev (sort (xs :: real list))"
proof -
  let ?f = "\<lambda>i. - (xs ! i)"
  have "map ?f (sort_key ?f [0..<length xs]) = sort (map ?f [0..<length xs])"
    by (rule map_sort_key)
  also have "map ?f [0..<length xs] = map uminus (map (\<lambda>i. xs ! i) [0..<length xs])"
    by simp
  also have "\<dots> = map uminus xs" by (simp only: map_nth)
  also have "sort (map uminus xs) = map uminus (rev (sort xs))" by (rule sort_map_uminus)
  finally have e: "map uminus (map (\<lambda>i. xs ! i) (sort_key ?f [0..<length xs])) =
      map uminus (rev (sort xs))"
    by (simp add: comp_def)
  have "inj (uminus :: real \<Rightarrow> real)" by simp
  from inj_map_eq_map[OF this] e show ?thesis by blast
qed

lemma topk_spec:
  assumes "k \<le> length xs"
  shows "\<exists>vals indices. topk xs k = Inr (vals, indices) \<and>
           vals = take k (rev (sort xs)) \<and>
           length indices = k \<and> distinct indices \<and>
           set indices \<subseteq> {0..<length xs} \<and>
           vals = map (\<lambda>i. xs ! i) indices"
proof -
  let ?idx = "sort_key (\<lambda>i. - (xs ! i)) [0..<length xs]"
  have "map (\<lambda>i. xs ! i) (take k ?idx) = take k (rev (sort xs))"
    by (simp only: take_map[symmetric] nth_sort_key_desc)
  moreover have "length (take k ?idx) = k" using assms by simp
  moreover have "distinct (take k ?idx)" by simp
  moreover have "set (take k ?idx) \<subseteq> {0..<length xs}"
    using set_take_subset[of k ?idx] by simp
  ultimately show ?thesis using assms by (simp add: topk_def Let_def)
qed

lemma nth_concat_uniform:
  assumes "\<forall>r \<in> set rows. length r = V" and "i < length rows * V"
  shows "concat rows ! i = rows ! (i div V) ! (i mod V)"
  using assms
proof (induction rows arbitrary: i)
  case Nil
  then show ?case by simp
next
  case (Cons r rows)
  have V: "0 < V" using Cons.prems(2) by (cases V) auto
  show ?case
  proof (cases "i < V")
    case True
    then show ?thesis using Cons.prems by (simp add: nth_append)
  next
    case False
    then have ge: "V \<le> i" by simp
    have "i - V < length rows * V" using Cons.prems(2) ge by simp
    then have "concat rows ! (i - V) = rows ! ((i - V) div V) ! ((i - V) mod V)"
      using Cons.IH Cons.prems(1) by simp
    moreover have "i div V = Suc ((i - V) div V)" using ge V by (simp add: le_div_geq)
    moreover have "i mod V = (i - V) mod V" using ge by (simp add: le_mod_geq)
    ultimately show ?thesis using Cons.prems(1) False by (simp add: nth_append)
  qed
qed

lemma length_concat_uniform:
  "\<forall>r \<in> set rows. length r = V \<Longrightarrow> length (concat rows) = length rows * V"
  by (induction rows) auto

lemma topk_rows_spec:
  assumes "\<forall>xs \<in> set rows. k \<le> length xs"
  shows "\<exists>vals indices. topk_rows rows k = Inr (vals, indices) \<and>
           length vals = length rows \<and> length indices = length rows \<and>
           (\<forall>m < length rows. topk (rows ! m) k = Inr (vals ! m, indices ! m))"
  using assms
proof (induction rows)
  case Nil
  then show ?case by simp
next
  case (Cons xs rows)
  obtain v i where t: "topk xs k = Inr (v, i)"
    using topk_spec[of k xs] Cons.prems by auto
  obtain vs "is" where r: "topk_rows rows k = Inr (vs, is)"
      "length vs = length rows" "length is = length rows"
      "\<forall>m < length rows. topk (rows ! m) k = Inr (vs ! m, is ! m)"
    using Cons.IH Cons.prems by auto
  have "\<forall>m < length (xs # rows). topk ((xs # rows) ! m) k = Inr ((v # vs) ! m, (i # is) ! m)"
    using t r(4) by (auto simp: nth_Cons split: nat.splits)
  then show ?case using t r by simp
qed

lemma extensions_nth:
  assumes "scores_sized M K V logpb_tm1 logpy_t" and "m < M"
  shows "extensions logpb_tm1 logpy_t ! m =
           map2 (\<lambda>pb row. map (\<lambda>py. pb + py) row) (logpb_tm1 ! m) (logpy_t ! m)"
  using assms by (simp add: extensions_def scores_sized_def)

lemma length_extensions:
  "scores_sized M K V logpb_tm1 logpy_t \<Longrightarrow> length (extensions logpb_tm1 logpy_t) = M"
  by (simp add: extensions_def scores_sized_def)

lemma sized_rows:
  assumes "scores_sized M K V logpb_tm1 logpy_t" and "m < M"
  shows "length (logpb_tm1 ! m) = K" "length (logpy_t ! m) = K"
        "\<forall>k < K. length (logpy_t ! m ! k) = V"
  using assms by (auto simp: scores_sized_def list_all_length)

lemma extensions_row:
  assumes "scores_sized M K V logpb_tm1 logpy_t" and "m < M"
  shows "length (extensions logpb_tm1 logpy_t ! m) = K"
    and "\<forall>r \<in> set (extensions logpb_tm1 logpy_t ! m). length r = V"
    and "\<forall>k < K. \<forall>v < V. extensions logpb_tm1 logpy_t ! m ! k ! v =
            logpb_tm1 ! m ! k + logpy_t ! m ! k ! v"
proof -
  note s = sized_rows[OF assms]
  show "length (extensions logpb_tm1 logpy_t ! m) = K"
    using s by (simp add: extensions_nth[OF assms])
  show "\<forall>r \<in> set (extensions logpb_tm1 logpy_t ! m). length r = V"
    using s by (auto simp: extensions_nth[OF assms] in_set_conv_nth)
  show "\<forall>k < K. \<forall>v < V. extensions logpb_tm1 logpy_t ! m ! k ! v =
            logpb_tm1 ! m ! k + logpy_t ! m ! k ! v"
    using s by (simp add: extensions_nth[OF assms])
qed

lemma flat_row:
  assumes "scores_sized M K V logpb_tm1 logpy_t" and "m < M"
  shows "length (flatten1 (extensions logpb_tm1 logpy_t) ! m) = K * V"
    and "\<forall>i < K * V. flatten1 (extensions logpb_tm1 logpy_t) ! m ! i =
            logpb_tm1 ! m ! (i div V) + logpy_t ! m ! (i div V) ! (i mod V)"
proof -
  let ?e = "extensions logpb_tm1 logpy_t ! m"
  note r = extensions_row[OF assms]
  have f: "flatten1 (extensions logpb_tm1 logpy_t) ! m = concat ?e"
    using assms length_extensions[OF assms(1)] by (simp add: flatten1_def)
  show "length (flatten1 (extensions logpb_tm1 logpy_t) ! m) = K * V"
    using length_concat_uniform[OF r(2)] r(1) by (simp add: f)
  show "\<forall>i < K * V. flatten1 (extensions logpb_tm1 logpy_t) ! m ! i =
            logpb_tm1 ! m ! (i div V) + logpy_t ! m ! (i div V) ! (i mod V)"
  proof (intro allI impI)
    fix i assume i: "i < K * V"
    then have V: "0 < V" by (cases V) auto
    have d: "i div V < K" using i V by (simp add: less_mult_imp_div_less)
    have md: "i mod V < V" using V by simp
    have "concat ?e ! i = ?e ! (i div V) ! (i mod V)"
      using nth_concat_uniform[OF r(2)] i r(1) by simp
    then show "flatten1 (extensions logpb_tm1 logpy_t) ! m ! i =
            logpb_tm1 ! m ! (i div V) + logpy_t ! m ! (i div V) ! (i mod V)"
      using r(3) d md by (simp add: f)
  qed
qed

text \<open>The selection step on well-sized scores.\<close>

lemma beam_select_spec:
  assumes sz: "scores_sized M K V logpb_tm1 logpy_t"
    and K: "beam_width self = K" and V: "0 < V"
  shows "\<exists>logpb_t indices.
           beam_select self logpb_tm1 logpy_t = Inr (logpb_t, indices) \<and>
           length logpb_t = M \<and> length indices = M \<and>
           (\<forall>m < M.
              logpb_t ! m = take K (rev (sort (flatten1 (extensions logpb_tm1 logpy_t) ! m))) \<and>
              length (logpb_t ! m) = K \<and>
              length (indices ! m) = K \<and> distinct (indices ! m) \<and>
              (\<forall>j < K. indices ! m ! j < K * V \<and>
                 logpb_t ! m ! j = flatten1 (extensions logpb_tm1 logpy_t) ! m ! (indices ! m ! j)))"
proof -
  let ?flat = "flatten1 (extensions logpb_tm1 logpy_t)"
  have lf: "length ?flat = M" using length_extensions[OF sz] by (simp add: flatten1_def)
  have le: "\<forall>xs \<in> set ?flat. K \<le> length xs"
  proof
    fix xs assume "xs \<in> set ?flat"
    then obtain m where m: "m < M" "xs = ?flat ! m" using lf by (auto simp: in_set_conv_nth)
    then have "length xs = K * V" using flat_row(1)[OF sz] by simp
    then show "K \<le> length xs" using V by simp
  qed
  obtain vals indices where t: "topk_rows ?flat K = Inr (vals, indices)"
      "length vals = M" "length indices = M"
      "\<forall>m < M. topk (?flat ! m) K = Inr (vals ! m, indices ! m)"
    using topk_rows_spec[OF le] lf by auto
  have "\<forall>m < M.
              vals ! m = take K (rev (sort (?flat ! m))) \<and>
              length (vals ! m) = K \<and>
              length (indices ! m) = K \<and> distinct (indices ! m) \<and>
              (\<forall>j < K. indices ! m ! j < K * V \<and>
                 vals ! m ! j = ?flat ! m ! (indices ! m ! j))"
  proof (intro allI impI)
    fix m assume m: "m < M"
    have len: "length (?flat ! m) = K * V" using flat_row(1)[OF sz m] .
    then have "K \<le> length (?flat ! m)" using V by simp
    from topk_spec[OF this] t(4) m
    have p: "vals ! m = take K (rev (sort (?flat ! m)))" "length (indices ! m) = K"
        "distinct (indices ! m)" "set (indices ! m) \<subseteq> {0..<length (?flat ! m)}"
        "vals ! m = map (\<lambda>i. ?flat ! m ! i) (indices ! m)"
      by auto
    have "\<forall>j < K. indices ! m ! j < K * V \<and> vals ! m ! j = ?flat ! m ! (indices ! m ! j)"
    proof (intro allI impI)
      fix j assume j: "j < K"
      then have "indices ! m ! j \<in> set (indices ! m)" using p(2) by simp
      then have "indices ! m ! j < K * V" using p(4) len by auto
      moreover have "vals ! m ! j = ?flat ! m ! (indices ! m ! j)"
        using p(5) p(2) j by simp
      ultimately show "indices ! m ! j < K * V \<and> vals ! m ! j = ?flat ! m ! (indices ! m ! j)"
        by simp
    qed
    moreover have "length (vals ! m) = K" using p(5) p(2) by simp
    ultimately show "vals ! m = take K (rev (sort (?flat ! m))) \<and>
              length (vals ! m) = K \<and>
              length (indices ! m) = K \<and> distinct (indices ! m) \<and>
              (\<forall>j < K. indices ! m ! j < K * V \<and>
                 vals ! m ! j = ?flat ! m ! (indices ! m ! j))"
      using p(1,2,3) by simp
  qed
  then show ?thesis using t(1,2,3) K unfolding beam_select_def by blast
qed

lemma beam_paths_nth:
  "m < length indices \<Longrightarrow> j < length (indices ! m) \<Longrightarrow>
   beam_paths V indices ! m ! j = indices ! m ! j div V"
  by (simp add: beam_paths_def)

lemma beam_tokens_nth:
  "m < length indices \<Longrightarrow> j < length (indices ! m) \<Longrightarrow>
   beam_tokens V indices ! m ! j = indices ! m ! j mod V"
  by (simp add: beam_tokens_def)

lemma length_beam_paths:
  "length (beam_paths V indices) = length indices"
  "m < length indices \<Longrightarrow> length (beam_paths V indices ! m) = length (indices ! m)"
  by (simp_all add: beam_paths_def)

lemma length_beam_tokens:
  "length (beam_tokens V indices) = length indices"
  "m < length indices \<Longrightarrow> length (beam_tokens V indices ! m) = length (indices ! m)"
  by (simp_all add: beam_tokens_def)

lemma gather_paths_nth:
  "m < length x \<Longrightarrow> m < length paths \<Longrightarrow> k < length (paths ! m) \<Longrightarrow>
   gather_paths x paths ! m ! k = x ! m ! (paths ! m ! k)"
  by (simp add: gather_paths_def)

lemma length_gather_paths:
  "length (gather_paths x paths) = min (length x) (length paths)"
  "m < length x \<Longrightarrow> m < length paths \<Longrightarrow>
   length (gather_paths x paths ! m) = length (paths ! m)"
  by (simp_all add: gather_paths_def)

lemma update_beam_returns:
  assumes "beam_select self logpb_tm1 logpy_t = Inr (logpb_t, indices)"
    and "state_matches (cell_type self) htilde_t"
  shows "update_beam self htilde_t b_tm1_1 logpb_tm1 logpy_t =
           Inr (map_hidden (\<lambda>h. gather_paths h (beam_paths (target_vocab_size self) indices))
                  htilde_t,
                map (\<lambda>b_i. gather_paths b_i (beam_paths (target_vocab_size self) indices))
                  b_tm1_1 @ [beam_tokens (target_vocab_size self) indices],
                logpb_t)"
proof (cases htilde_t)
  case (Tensor h)
  then have "cell_type self \<noteq> LSTM" using assms(2) by (cases "cell_type self") auto
  then show ?thesis using assms(1) Tensor by (simp add: update_beam_def Let_def)
next
  case (Pair h c)
  then have "cell_type self = LSTM" using assms(2) by (cases "cell_type self") auto
  then show ?thesis using assms(1) Pair by (simp add: update_beam_def Let_def)
qed

lemma gathered_state:
  assumes "state_sized M K x" and "length paths = M"
    and "\<forall>m < M. length (paths ! m) = K"
  shows "state_sized M K (gather_paths x paths)"
    and "\<forall>m < M. \<forall>k < K. gather_paths x paths ! m ! k = x ! m ! (paths ! m ! k)"
  using assms
  by (simp_all add: state_sized_def list_all_length length_gather_paths gather_paths_nth)

text \<open>
  Claim C1. For scores of size \<open>(M, K)\<close>, distributions of size \<open>(M, K, V)\<close>, a history
  of size \<open>(t, M, K)\<close> and a state of size \<open>(M, K, 2 * H)\<close>, \<open>update_beam\<close> returns,
  and for every batch element \<open>m\<close>: the flattened candidates are the \<open>K * V\<close> sums
  \<open>logpb_tm1[m, i div V] + logpy_t[m, i div V, i mod V]\<close> (nothing is re-normalised);
  \<open>logpb_t[m]\<close> is the list of the \<open>K\<close> largest of them, in descending order; the
  \<open>K\<close> selected flat indices are distinct and below \<open>K * V\<close>; and for each selected index
  \<open>i\<close> the returned score is the candidate at \<open>i\<close>, that is
  \<open>logpb_tm1[m, i div V] + logpy_t[m, i div V, i mod V]\<close>, the token appended to the
  returned history is \<open>i mod V\<close>, and the returned history and state of that slot are
  those of the source hypothesis \<open>i div V\<close>.
\<close>

theorem update_beam_scores:
  assumes sz: "scores_sized M K V logpb_tm1 logpy_t"
    and hist: "history_sized M K b_tm1_1"
    and hid: "hidden_sized M K htilde_t"
    and V: "target_vocab_size self = V" "0 < V"
    and K: "beam_width self = K"
    and st: "state_matches (cell_type self) htilde_t"
  shows "\<exists>b_t_0 b_t_1 logpb_t indices.
           beam_select self logpb_tm1 logpy_t = Inr (logpb_t, indices) \<and>
           update_beam self htilde_t b_tm1_1 logpb_tm1 logpy_t = Inr (b_t_0, b_t_1, logpb_t) \<and>
           length logpb_t = M \<and> length indices = M \<and>
           length b_t_1 = length b_tm1_1 + 1 \<and>
           (\<forall>m < M.
              length (flatten1 (extensions logpb_tm1 logpy_t) ! m) = K * V \<and>
              (\<forall>i < K * V. flatten1 (extensions logpb_tm1 logpy_t) ! m ! i =
                   logpb_tm1 ! m ! (i div V) + logpy_t ! m ! (i div V) ! (i mod V)) \<and>
              logpb_t ! m = take K (rev (sort (flatten1 (extensions logpb_tm1 logpy_t) ! m))) \<and>
              length (indices ! m) = K \<and> distinct (indices ! m) \<and>
              (\<forall>j < K.
                 indices ! m ! j < K * V \<and>
                 indices ! m ! j div V < K \<and>
                 indices ! m ! j mod V < V \<and>
                 logpb_t ! m ! j =
                   flatten1 (extensions logpb_tm1 logpy_t) ! m ! (indices ! m ! j) \<and>
                 logpb_t ! m ! j =
                   logpb_tm1 ! m ! (indices ! m ! j div V) +
                   logpy_t ! m ! (indices ! m ! j div V) ! (indices ! m ! j mod V) \<and>
                 b_t_1 ! length b_tm1_1 ! m ! j = indices ! m ! j mod V \<and>
                 (\<forall>i < length b_tm1_1.
                    b_t_1 ! i ! m ! j = b_tm1_1 ! i ! m ! (indices ! m ! j div V)))) \<and>
           rel_hidden (\<lambda>h h'. \<forall>m < M. \<forall>j < K. h' ! m ! j = h ! m ! (indices ! m ! j div V))
              htilde_t b_t_0"
proof -
  obtain logpb_t indices where sel:
      "beam_select self logpb_tm1 logpy_t = Inr (logpb_t, indices)"
      "length logpb_t = M" "length indices = M"
      "\<forall>m < M.
         logpb_t ! m = take K (rev (sort (flatten1 (extensions logpb_tm1 logpy_t) ! m))) \<and>
         length (logpb_t ! m) = K \<and>
         length (indices ! m) = K \<and> distinct (indices ! m) \<and>
         (\<forall>j < K. indices ! m ! j < K * V \<and>
            logpb_t ! m ! j = flatten1 (extensions logpb_tm1 logpy_t) ! m ! (indices ! m ! j))"
    using beam_select_spec[OF sz K V(2)] by blast
  define paths where "paths = beam_paths V indices"
  define tokens where "tokens = beam_tokens V indices"
  define b_t_1 where "b_t_1 = map (\<lambda>b_i. gather_paths b_i paths) b_tm1_1 @ [tokens]"
  define b_t_0 where "b_t_0 = map_hidden (\<lambda>h. gather_paths h paths) htilde_t"
  have ret: "update_beam self htilde_t b_tm1_1 logpb_tm1 logpy_t = Inr (b_t_0, b_t_1, logpb_t)"
    using update_beam_returns[OF sel(1) st] V(1)
    by (simp add: b_t_0_def b_t_1_def paths_def tokens_def)
  have li: "\<forall>m < M. length (indices ! m) = K" using sel(4) by blast
  have lp: "length paths = M" "\<forall>m < M. length (paths ! m) = K"
    using sel(3) li by (simp_all add: paths_def length_beam_paths)
  have pn: "paths ! m ! j = indices ! m ! j div V" if "m < M" "j < K" for m j
    using that sel(3) li by (simp add: paths_def beam_paths_nth)
  have tn: "tokens ! m ! j = indices ! m ! j mod V" if "m < M" "j < K" for m j
    using that sel(3) li by (simp add: tokens_def beam_tokens_nth)
  have hs: "state_sized M K (b_tm1_1 ! i)" if "i < length b_tm1_1" for i
    using hist that by (simp add: history_sized_def state_sized_def list_all_length)
  have old: "b_t_1 ! i = gather_paths (b_tm1_1 ! i) paths" if "i < length b_tm1_1" for i
    using that by (simp add: b_t_1_def nth_append)
  have new: "b_t_1 ! length b_tm1_1 = tokens"
    by (simp add: b_t_1_def nth_append)
  have len: "length b_t_1 = length b_tm1_1 + 1" by (simp add: b_t_1_def)
  have row: "length (flatten1 (extensions logpb_tm1 logpy_t) ! m) = K * V \<and>
              (\<forall>i < K * V. flatten1 (extensions logpb_tm1 logpy_t) ! m ! i =
                   logpb_tm1 ! m ! (i div V) + logpy_t ! m ! (i div V) ! (i mod V)) \<and>
              logpb_t ! m = take K (rev (sort (flatten1 (extensions logpb_tm1 logpy_t) ! m))) \<and>
              length (indices ! m) = K \<and> distinct (indices ! m) \<and>
              (\<forall>j < K.
                 indices ! m ! j < K * V \<and>
                 indices ! m ! j div V < K \<and>
                 indices ! m ! j mod V < V \<and>
                 logpb_t ! m ! j =
                   flatten1 (extensions logpb_tm1 logpy_t) ! m ! (indices ! m ! j) \<and>
                 logpb_t ! m ! j =
                   logpb_tm1 ! m ! (indices ! m ! j div V) +
                   logpy_t ! m ! (indices ! m ! j div V) ! (indices ! m ! j mod V) \<and>
                 b_t_1 ! length b_tm1_1 ! m ! j = indices ! m ! j mod V \<and>
                 (\<forall>i < length b_tm1_1.
                    b_t_1 ! i ! m ! j = b_tm1_1 ! i ! m ! (indices ! m ! j div V)))"
    if m: "m < M" for m
  proof -
    note f = flat_row[OF sz m]
    from sel(4) m have s:
      "logpb_t ! m = take K (rev (sort (flatten1 (extensions logpb_tm1 logpy_t) ! m)))"
      "length (indices ! m) = K" "distinct (indices ! m)"
      "\<forall>j < K. indices ! m ! j < K * V \<and>
            logpb_t ! m ! j = flatten1 (extensions logpb_tm1 logpy_t) ! m ! (indices ! m ! j)"
      by blast+
    have "indices ! m ! j < K * V \<and>
                 indices ! m ! j div V < K \<and>
                 indices ! m ! j mod V < V \<and>
                 logpb_t ! m ! j =
                   flatten1 (extensions logpb_tm1 logpy_t) ! m ! (indices ! m ! j) \<and>
                 logpb_t ! m ! j =
                   logpb_tm1 ! m ! (indices ! m ! j div V) +
                   logpy_t ! m ! (indices ! m ! j div V) ! (indices ! m ! j mod V) \<and>
                 b_t_1 ! length b_tm1_1 ! m ! j = indices ! m ! j mod V \<and>
                 (\<forall>i < length b_tm1_1.
                    b_t_1 ! i ! m ! j = b_tm1_1 ! i ! m ! (indices ! m ! j div V))"
      if j: "j < K" for j
    proof -
      let ?i = "indices ! m ! j"
      have i: "?i < K * V"
        and v: "logpb_t ! m ! j = flatten1 (extensions logpb_tm1 logpy_t) ! m ! ?i"
        using s(4) j by simp_all
      have d: "?i div V < K" using i V(2) by (simp add: less_mult_imp_div_less)
      have md: "?i mod V < V" using V(2) by simp
      have sc: "logpb_t ! m ! j =
          logpb_tm1 ! m ! (?i div V) + logpy_t ! m ! (?i div V) ! (?i mod V)"
        using f(2) i v by simp
      have tk: "b_t_1 ! length b_tm1_1 ! m ! j = ?i mod V"
        using new tn[OF m j] by simp
      have "b_t_1 ! i ! m ! j = b_tm1_1 ! i ! m ! (?i div V)" if i': "i < length b_tm1_1" for i
        using gathered_state(2)[OF hs[OF i'] lp] old[OF i'] m j pn[OF m j] by simp
      then show ?thesis using i d md v sc tk by blast
    qed
    then show ?thesis using f s(1,2,3) by blast
  qed
  have hidden: "rel_hidden (\<lambda>h h'. \<forall>m < M. \<forall>j < K. h' ! m ! j = h ! m ! (indices ! m ! j div V))
      htilde_t b_t_0"
  proof (cases htilde_t)
    case (Tensor h)
    then have "state_sized M K h" using hid by simp
    from gathered_state(2)[OF this lp] show ?thesis using Tensor pn by (simp add: b_t_0_def)
  next
    case (Pair h c)
    then have "state_sized M K h" "state_sized M K c" using hid by simp_all
    from gathered_state(2)[OF this(1) lp] gathered_state(2)[OF this(2) lp]
    show ?thesis using Pair pn by (simp add: b_t_0_def)
  qed
  show ?thesis
    by (intro exI[of _ b_t_0] exI[of _ b_t_1] exI[of _ logpb_t] exI[of _ indices] conjI
          sel(1) ret sel(2) sel(3) len hidden allI impI row)
qed

theorem update_beam_scores_witness:
  "update_beam \<lparr>cell_type = GRU, beam_width = 2, target_vocab_size = 3\<rparr>
     (Tensor [[[1], [2]]]) [[[4, 5]]] [[-1, -1]] [[[-5, -6, -2], [-7, -1, -8]]]
   = Inr (Tensor [[[2], [1]]], [[[5, 4]], [[1, 2]]], [[-2, -3]]) \<and>
   beam_select \<lparr>cell_type = GRU, beam_width = 2, target_vocab_size = 3\<rparr>
     [[-1, -1]] [[[-5, -6, -2], [-7, -1, -8]]] = Inr ([[-2, -3]], [[4, 2]]) \<and>
   (\<exists>b_t_0 b_t_1 logpb_t indices.
      beam_select \<lparr>cell_type = GRU, beam_width = 2, target_vocab_size = 3\<rparr>
        [[-1, -1]] [[[-5, -6, -2], [-7, -1, -8]]] = Inr (logpb_t, indices) \<and>
      update_beam \<lparr>cell_type = GRU, beam_width = 2, target_vocab_size = 3\<rparr>
        (Tensor [[[1], [2]]]) [[[4, 5]]] [[-1, -1]] [[[-5, -6, -2], [-7, -1, -8]]]
        = Inr (b_t_0, b_t_1, logpb_t) \<and>
      logpb_t ! 0 = take 2 (rev (sort [-6, -7, -3, -8, -2, -9])) \<and>
      logpb_t ! 0 ! 0 =
        [[-1, -1]] ! 0 ! (indices ! 0 ! 0 div 3) +
        [[[-5, -6, -2], [-7, -1, -8]]] ! 0 ! (indices ! 0 ! 0 div 3) ! (indices ! 0 ! 0 mod 3) \<and>
      b_t_1 ! 1 ! 0 ! 0 = indices ! 0 ! 0 mod 3 \<and>
      b_t_1 ! 0 ! 0 ! 0 = [[[4, 5]]] ! 0 ! 0 ! (indices ! 0 ! 0 div 3))"
proof -
  let ?self = "\<lparr>cell_type = GRU, beam_width = 2, target_vocab_size = 3\<rparr>"
  let ?pb = "[[-1, -1 :: real]]"
  let ?py = "[[[-5, -6, -2], [-7, -1, -8 :: real]]]"
  let ?h = "Tensor [[[1 :: real], [2]]]"
  let ?b = "[[[4, 5 :: nat]]]"
  have sz: "scores_sized 1 2 3 ?pb ?py" by (simp add: scores_sized_def)
  have hist: "history_sized 1 2 ?b" by (simp add: history_sized_def)
  have hid: "hidden_sized 1 2 ?h" by (simp add: state_sized_def)
  have fl: "flatten1 (extensions ?pb ?py) ! 0 = [-6, -7, -3, -8, -2, -9]"
    by (simp add: flatten1_def extensions_def)
  have "target_vocab_size ?self = 3" "(0 :: nat) < 3" "beam_width ?self = 2"
       "state_matches (cell_type ?self) ?h"
    by simp_all
  from update_beam_scores[OF sz hist hid this]
  obtain b_t_0 b_t_1 logpb_t indices where
      sel: "beam_select ?self ?pb ?py = Inr (logpb_t, indices)"
    and ret: "update_beam ?self ?h ?b ?pb ?py = Inr (b_t_0, b_t_1, logpb_t)"
    and row: "\<forall>m < 1.
              length (flatten1 (extensions ?pb ?py) ! m) = 2 * 3 \<and>
              (\<forall>i < 2 * 3. flatten1 (extensions ?pb ?py) ! m ! i =
                   ?pb ! m ! (i div 3) + ?py ! m ! (i div 3) ! (i mod 3)) \<and>
              logpb_t ! m = take 2 (rev (sort (flatten1 (extensions ?pb ?py) ! m))) \<and>
              length (indices ! m) = 2 \<and> distinct (indices ! m) \<and>
              (\<forall>j < 2.
                 indices ! m ! j < 2 * 3 \<and>
                 indices ! m ! j div 3 < 2 \<and>
                 indices ! m ! j mod 3 < 3 \<and>
                 logpb_t ! m ! j = flatten1 (extensions ?pb ?py) ! m ! (indices ! m ! j) \<and>
                 logpb_t ! m ! j =
                   ?pb ! m ! (indices ! m ! j div 3) +
                   ?py ! m ! (indices ! m ! j div 3) ! (indices ! m ! j mod 3) \<and>
                 b_t_1 ! length ?b ! m ! j = indices ! m ! j mod 3 \<and>
                 (\<forall>i < length ?b.
                    b_t_1 ! i ! m ! j = ?b ! i ! m ! (indices ! m ! j div 3)))"
    by (elim exE conjE) (rule that)
  have z: "(0 :: nat) < 1" and o: "(0 :: nat) < 2" by simp_all
  note r0 = row[rule_format, OF z]
  have "logpb_t ! 0 = take 2 (rev (sort (flatten1 (extensions ?pb ?py) ! 0)))"
    using r0 by (elim conjE)
  then have a: "logpb_t ! 0 = take 2 (rev (sort [-6, -7, -3, -8, -2, -9]))"
    by (simp only: fl)
  have sl: "\<forall>j < 2.
                 indices ! 0 ! j < 2 * 3 \<and>
                 indices ! 0 ! j div 3 < 2 \<and>
                 indices ! 0 ! j mod 3 < 3 \<and>
                 logpb_t ! 0 ! j = flatten1 (extensions ?pb ?py) ! 0 ! (indices ! 0 ! j) \<and>
                 logpb_t ! 0 ! j =
                   ?pb ! 0 ! (indices ! 0 ! j div 3) +
                   ?py ! 0 ! (indices ! 0 ! j div 3) ! (indices ! 0 ! j mod 3) \<and>
                 b_t_1 ! length ?b ! 0 ! j = indices ! 0 ! j mod 3 \<and>
                 (\<forall>i < length ?b.
                    b_t_1 ! i ! 0 ! j = ?b ! i ! 0 ! (indices ! 0 ! j div 3))"
    using r0 by (elim conjE)
  note s0 = sl[rule_format, OF o]
  have b: "logpb_t ! 0 ! 0 =
                   ?pb ! 0 ! (indices ! 0 ! 0 div 3) +
                   ?py ! 0 ! (indices ! 0 ! 0 div 3) ! (indices ! 0 ! 0 mod 3)"
    using s0 by (elim conjE)
  have "b_t_1 ! length ?b ! 0 ! 0 = indices ! 0 ! 0 mod 3" using s0 by (elim conjE)
  then have c: "b_t_1 ! 1 ! 0 ! 0 = indices ! 0 ! 0 mod 3" by simp
  have "\<forall>i < length ?b. b_t_1 ! i ! 0 ! 0 = ?b ! i ! 0 ! (indices ! 0 ! 0 div 3)"
    using s0 by (elim conjE)
  then have d: "b_t_1 ! 0 ! 0 ! 0 = ?b ! 0 ! 0 ! (indices ! 0 ! 0 div 3)" by simp
  have e: "update_beam ?self ?h ?b ?pb ?py
      = Inr (Tensor [[[2], [1]]], [[[5, 4]], [[1, 2]]], [[-2, -3]])"
    by code_simp
  have f: "beam_select ?self ?pb ?py = Inr ([[-2, -3]], [[4, 2]])"
    by code_simp
  have "\<exists>b_t_0 b_t_1 logpb_t indices.
      beam_select ?self ?pb ?py = Inr (logpb_t, indices) \<and>
      update_beam ?self ?h ?b ?pb ?py = Inr (b_t_0, b_t_1, logpb_t) \<and>
      logpb_t ! 0 = take 2 (rev (sort [-6, -7, -3, -8, -2, -9])) \<and>
      logpb_t ! 0 ! 0 =
        ?pb ! 0 ! (indices ! 0 ! 0 div 3) +
        ?py ! 0 ! (indices ! 0 ! 0 div 3) ! (indices ! 0 ! 0 mod 3) \<and>
      b_t_1 ! 1 ! 0 ! 0 = indices ! 0 ! 0 mod 3 \<and>
      b_t_1 ! 0 ! 0 ! 0 = ?b ! 0 ! 0 ! (indices ! 0 ! 0 div 3)"
    by (intro exI conjI) (rule sel, rule ret, rule a, rule b, rule c, rule d)
  with e f show ?thesis by (intro conjI)
qed

text \<open>
  Claim C2. After \<open>update_beam\<close>, every batch element keeps exactly \<open>K = beam_width\<close>
  hypotheses (scores, histories and states are of size \<open>K\<close>); the history \<open>b_t_1\<close> has
  \<open>t + 1\<close> steps; for every slot \<open>(m, k)\<close> its first \<open>t\<close> tokens are those of the source
  hypothesis \<open>paths[m, k]\<close> of \<open>b_tm1_1\<close> and its last token is \<open>tokens[m, k]\<close>; and the
  state at slot \<open>(m, k)\<close> is the incoming state at \<open>(m, paths[m, k])\<close>, for the one tensor
  of a GRU or RNN state and for both tensors of an LSTM state.
\<close>

theorem update_beam_gathers:
  assumes sz: "scores_sized M K V logpb_tm1 logpy_t"
    and hist: "history_sized M K b_tm1_1"
    and hid: "hidden_sized M K htilde_t"
    and V: "target_vocab_size self = V" "0 < V"
    and K: "beam_width self = K"
    and st: "state_matches (cell_type self) htilde_t"
  shows "\<exists>b_t_0 b_t_1 logpb_t indices.
           beam_select self logpb_tm1 logpy_t = Inr (logpb_t, indices) \<and>
           update_beam self htilde_t b_tm1_1 logpb_tm1 logpy_t = Inr (b_t_0, b_t_1, logpb_t) \<and>
           length logpb_t = M \<and> (\<forall>m < M. length (logpb_t ! m) = K) \<and>
           length b_t_1 = length b_tm1_1 + 1 \<and>
           history_sized M K b_t_1 \<and>
           hidden_sized M K b_t_0 \<and>
           (\<forall>m < M. \<forall>k < K.
              beam_paths V indices ! m ! k < K \<and>
              (\<forall>i < length b_tm1_1.
                 b_t_1 ! i ! m ! k = b_tm1_1 ! i ! m ! (beam_paths V indices ! m ! k)) \<and>
              b_t_1 ! length b_tm1_1 ! m ! k = beam_tokens V indices ! m ! k) \<and>
           rel_hidden (\<lambda>h h'. \<forall>m < M. \<forall>k < K. h' ! m ! k = h ! m ! (beam_paths V indices ! m ! k))
              htilde_t b_t_0 \<and>
           (cell_type self = LSTM \<longrightarrow>
              (\<exists>h c h' c'. htilde_t = Pair h c \<and> b_t_0 = Pair h' c'))"
proof -
  obtain logpb_t indices where sel:
      "beam_select self logpb_tm1 logpy_t = Inr (logpb_t, indices)"
      "length logpb_t = M" "length indices = M"
      "\<forall>m < M.
         logpb_t ! m = take K (rev (sort (flatten1 (extensions logpb_tm1 logpy_t) ! m))) \<and>
         length (logpb_t ! m) = K \<and>
         length (indices ! m) = K \<and> distinct (indices ! m) \<and>
         (\<forall>j < K. indices ! m ! j < K * V \<and>
            logpb_t ! m ! j = flatten1 (extensions logpb_tm1 logpy_t) ! m ! (indices ! m ! j))"
    using beam_select_spec[OF sz K V(2)] by blast
  define paths where "paths = beam_paths V indices"
  define tokens where "tokens = beam_tokens V indices"
  define b_t_1 where "b_t_1 = map (\<lambda>b_i. gather_paths b_i paths) b_tm1_1 @ [tokens]"
  define b_t_0 where "b_t_0 = map_hidden (\<lambda>h. gather_paths h paths) htilde_t"
  have ret: "update_beam self htilde_t b_tm1_1 logpb_tm1 logpy_t = Inr (b_t_0, b_t_1, logpb_t)"
    using update_beam_returns[OF sel(1) st] V(1)
    by (simp add: b_t_0_def b_t_1_def paths_def tokens_def)
  have li: "\<forall>m < M. length (indices ! m) = K" using sel(4) by blast
  have lp: "length paths = M" "\<forall>m < M. length (paths ! m) = K"
    using sel(3) li by (simp_all add: paths_def length_beam_paths)
  have lt: "length tokens = M" "\<forall>m < M. length (tokens ! m) = K"
    using sel(3) li by (simp_all add: tokens_def length_beam_tokens)
  have pK: "paths ! m ! k < K" if "m < M" "k < K" for m k
  proof -
    have "indices ! m ! k < K * V" using sel(4) that by blast
    then have "indices ! m ! k div V < K" using V(2) by (simp add: less_mult_imp_div_less)
    then show ?thesis using that sel(3) li by (simp add: paths_def beam_paths_nth)
  qed
  have hs: "state_sized M K (b_tm1_1 ! i)" if "i < length b_tm1_1" for i
    using hist that by (simp add: history_sized_def state_sized_def list_all_length)
  have old: "b_t_1 ! i = gather_paths (b_tm1_1 ! i) paths" if "i < length b_tm1_1" for i
    using that by (simp add: b_t_1_def nth_append)
  have new: "b_t_1 ! length b_tm1_1 = tokens"
    by (simp add: b_t_1_def nth_append)
  have len: "length b_t_1 = length b_tm1_1 + 1" by (simp add: b_t_1_def)
  have step: "state_sized M K (b_t_1 ! i)" if "i < length b_t_1" for i
  proof (cases "i < length b_tm1_1")
    case True
    then show ?thesis using gathered_state(1)[OF hs[OF True] lp] old by simp
  next
    case False
    then have "i = length b_tm1_1" using that len by simp
    then show ?thesis using new lt by (simp add: state_sized_def list_all_length)
  qed
  have hist': "history_sized M K b_t_1"
    unfolding history_sized_def list_all_length
    using step by (simp add: state_sized_def list_all_length)
  have toks: "beam_paths V indices ! m ! k < K \<and>
              (\<forall>i < length b_tm1_1.
                 b_t_1 ! i ! m ! k = b_tm1_1 ! i ! m ! (beam_paths V indices ! m ! k)) \<and>
              b_t_1 ! length b_tm1_1 ! m ! k = beam_tokens V indices ! m ! k"
    if "m < M" "k < K" for m k
  proof -
    have "b_t_1 ! i ! m ! k = b_tm1_1 ! i ! m ! (paths ! m ! k)" if i: "i < length b_tm1_1" for i
      using gathered_state(2)[OF hs[OF i] lp] old[OF i] \<open>m < M\<close> \<open>k < K\<close> by simp
    then show ?thesis using pK[OF that] new by (simp add: paths_def tokens_def)
  qed
  have hidden: "hidden_sized M K b_t_0 \<and>
      rel_hidden (\<lambda>h h'. \<forall>m < M. \<forall>k < K. h' ! m ! k = h ! m ! (paths ! m ! k)) htilde_t b_t_0"
  proof (cases htilde_t)
    case (Tensor h)
    then have "state_sized M K h" using hid by simp
    from gathered_state[OF this lp] show ?thesis using Tensor by (simp add: b_t_0_def)
  next
    case (Pair h c)
    then have "state_sized M K h" "state_sized M K c" using hid by simp_all
    from gathered_state[OF this(1) lp] gathered_state[OF this(2) lp]
    show ?thesis using Pair by (simp add: b_t_0_def)
  qed
  have lstm: "\<exists>h c h' c'. htilde_t = Pair h c \<and> b_t_0 = Pair h' c'" if "cell_type self = LSTM"
    using st that by (cases htilde_t) (simp_all add: b_t_0_def)
  have lens: "\<forall>m < M. length (logpb_t ! m) = K" using sel(4) by blast
  show ?thesis
    using sel(1) ret sel(2) lens len hist' hidden toks lstm
    unfolding paths_def by blast
qed

theorem update_beam_gathers_witness:
  "update_beam \<lparr>cell_type = LSTM, beam_width = 2, target_vocab_size = 3\<rparr>
     (Pair [[[1], [2]]] [[[7], [8]]]) [[[4, 5]]] [[-1, -5]] [[[-1, -2, -9], [-1, -1, -1]]]
   = Inr (Pair [[[1], [1]]] [[[7], [7]]], [[[4, 4]], [[0, 1]]], [[-2, -3]]) \<and>
   (\<exists>b_t_0 b_t_1 logpb_t indices.
      beam_select \<lparr>cell_type = LSTM, beam_width = 2, target_vocab_size = 3\<rparr>
        [[-1, -5]] [[[-1, -2, -9], [-1, -1, -1]]] = Inr (logpb_t, indices) \<and>
      update_beam \<lparr>cell_type = LSTM, beam_width = 2, target_vocab_size = 3\<rparr>
        (Pair [[[1], [2]]] [[[7], [8]]]) [[[4, 5]]] [[-1, -5]] [[[-1, -2, -9], [-1, -1, -1]]]
        = Inr (b_t_0, b_t_1, logpb_t) \<and>
      length b_t_1 = 2 \<and> history_sized 1 2 b_t_1 \<and> hidden_sized 1 2 b_t_0 \<and>
      b_t_1 ! 0 ! 0 ! 1 = [[[4, 5]]] ! 0 ! 0 ! (beam_paths 3 indices ! 0 ! 1) \<and>
      b_t_1 ! 1 ! 0 ! 1 = beam_tokens 3 indices ! 0 ! 1)"
proof -
  let ?self = "\<lparr>cell_type = LSTM, beam_width = 2, target_vocab_size = 3\<rparr>"
  let ?pb = "[[-1, -5 :: real]]"
  let ?py = "[[[-1, -2, -9], [-1, -1, -1 :: real]]]"
  let ?h = "Pair [[[1 :: real], [2]]] [[[7], [8]]]"
  let ?b = "[[[4, 5 :: nat]]]"
  have sz: "scores_sized 1 2 3 ?pb ?py" by (simp add: scores_sized_def)
  have hist: "history_sized 1 2 ?b" by (simp add: history_sized_def)
  have hid: "hidden_sized 1 2 ?h" by (simp add: state_sized_def)
  have "target_vocab_size ?self = 3" "(0 :: nat) < 3" "beam_width ?self = 2"
       "state_matches (cell_type ?self) ?h"
    by simp_all
  from update_beam_gathers[OF sz hist hid this]
  obtain b_t_0 b_t_1 logpb_t indices where
      sel: "beam_select ?self ?pb ?py = Inr (logpb_t, indices)"
    and ret: "update_beam ?self ?h ?b ?pb ?py = Inr (b_t_0, b_t_1, logpb_t)"
    and len: "length b_t_1 = length ?b + 1" "history_sized 1 2 b_t_1" "hidden_sized 1 2 b_t_0"
    and toks: "\<forall>m < 1. \<forall>k < 2.
              beam_paths 3 indices ! m ! k < 2 \<and>
              (\<forall>i < length ?b.
                 b_t_1 ! i ! m ! k = ?b ! i ! m ! (beam_paths 3 indices ! m ! k)) \<and>
              b_t_1 ! length ?b ! m ! k = beam_tokens 3 indices ! m ! k"
    by (elim exE conjE) (rule that)
  have a: "length b_t_1 = 2" using len(1) by simp
  have z: "(0 :: nat) < 1" and o: "(1 :: nat) < 2" by simp_all
  note t01 = toks[rule_format, OF z o]
  have "\<forall>i < length ?b. b_t_1 ! i ! 0 ! 1 = ?b ! i ! 0 ! (beam_paths 3 indices ! 0 ! 1)"
    using t01 by blast
  then have b1: "b_t_1 ! 0 ! 0 ! 1 = ?b ! 0 ! 0 ! (beam_paths 3 indices ! 0 ! 1)"
    by simp
  have "b_t_1 ! length ?b ! 0 ! 1 = beam_tokens 3 indices ! 0 ! 1"
    using t01 by blast
  then have b2: "b_t_1 ! 1 ! 0 ! 1 = beam_tokens 3 indices ! 0 ! 1"
    by simp
  note b = b1 b2
  have c: "update_beam ?self ?h ?b ?pb ?py
      = Inr (Pair [[[1], [1]]] [[[7], [7]]], [[[4, 4]], [[0, 1]]], [[-2, -3]])"
    by code_simp
  have "\<exists>b_t_0 b_t_1 logpb_t indices.
      beam_select ?self ?pb ?py = Inr (logpb_t, indices) \<and>
      update_beam ?self ?h ?b ?pb ?py = Inr (b_t_0, b_t_1, logpb_t) \<and>
      length b_t_1 = 2 \<and> history_sized 1 2 b_t_1 \<and> hidden_sized 1 2 b_t_0 \<and>
      b_t_1 ! 0 ! 0 ! 1 = ?b ! 0 ! 0 ! (beam_paths 3 indices ! 0 ! 1) \<and>
      b_t_1 ! 1 ! 0 ! 1 = beam_tokens 3 indices ! 0 ! 1"
    by (intro exI conjI) (rule sel, rule ret, rule a, rule len(2), rule len(3), rule b1, rule b2)
  with c show ?thesis by (rule conjI)
qed

section \<open>Properties of the attention weights and of multi-head attention\<close>

lemma attention_sized_nth:
  assumes "attention_sized M H htilde_t h F_lens"
  shows "length htilde_t = M" "length F_lens = M"
    and "\<forall>s < length h. length (h ! s) = M"
    and "\<forall>m < M. length (htilde_t ! m) = H"
    and "\<forall>s < length h. \<forall>m < M. length (h ! s ! m) = H"
  using assms by (auto simp: attention_sized_def state_sized_def list_all_length)

lemma energy_scores_nth:
  assumes "attention_sized M H htilde_t h F_lens" and "s < length h" and "m < M"
  shows "get_energy_scores cs htilde_t h ! s ! m = cs (htilde_t ! m) (h ! s ! m)"
    and "length (get_energy_scores cs htilde_t h ! s) = M"
  using assms attention_sized_nth[OF assms(1)]
  by (simp_all add: get_energy_scores_def)

lemma pad_mask_nth:
  "s < S \<Longrightarrow> m < length F_lens \<Longrightarrow> pad_mask S F_lens ! s ! m = (F_lens ! m \<le> s)"
  "s < S \<Longrightarrow> length (pad_mask S F_lens ! s) = length F_lens"
  "length (pad_mask S F_lens) = S"
  by (simp_all add: pad_mask_def)

lemma masked_nth:
  assumes sz: "attention_sized M H htilde_t h F_lens" and s: "s < length h" and m: "m < M"
  shows "masked_fill (get_energy_scores cs htilde_t h) (pad_mask (length h) F_lens) ! s ! m =
           (if F_lens ! m \<le> s then NegInf else Fin (cs (htilde_t ! m) (h ! s ! m)))"
    and "length (masked_fill (get_energy_scores cs htilde_t h) (pad_mask (length h) F_lens) ! s) = M"
proof -
  note n = attention_sized_nth[OF sz]
  have l: "length (get_energy_scores cs htilde_t h) = length h"
    by (simp add: get_energy_scores_def)
  have row: "masked_fill (get_energy_scores cs htilde_t h) (pad_mask (length h) F_lens) ! s =
      map2 (\<lambda>e b. if b then NegInf else Fin e) (get_energy_scores cs htilde_t h ! s)
           (pad_mask (length h) F_lens ! s)"
    using s l by (simp add: masked_fill_def pad_mask_nth(3))
  show "length (masked_fill (get_energy_scores cs htilde_t h) (pad_mask (length h) F_lens) ! s) = M"
    using energy_scores_nth(2)[OF sz s m] pad_mask_nth(2)[OF s, of F_lens] n(2)
    by (simp add: row)
  show "masked_fill (get_energy_scores cs htilde_t h) (pad_mask (length h) F_lens) ! s ! m =
           (if F_lens ! m \<le> s then NegInf else Fin (cs (htilde_t ! m) (h ! s ! m)))"
    using energy_scores_nth[OF sz s m] pad_mask_nth(1)[OF s, of m F_lens]
      pad_mask_nth(2)[OF s, of F_lens] n(2) m
    by (simp add: row)
qed

lemma length_masked:
  "length (masked_fill (get_energy_scores cs htilde_t h) (pad_mask (length h) F_lens)) = length h"
  by (simp add: masked_fill_def get_energy_scores_def pad_mask_def)

lemma softmax0_nth:
  assumes "s < length e" and "m < length (e ! s)"
  shows "softmax0 e ! s ! m =
           (if sum_list (map (\<lambda>e_r. exp_energy (e_r ! m)) e) = 0 then None
            else Some (exp_energy (e ! s ! m) / sum_list (map (\<lambda>e_r. exp_energy (e_r ! m)) e)))"
  using assms by (simp add: softmax0_def Let_def)

lemma length_softmax0:
  "length (softmax0 e) = length e"
  "s < length e \<Longrightarrow> length (softmax0 e ! s) = length (e ! s)"
  by (simp_all add: softmax0_def)

lemma column_sum:
  "sum_list (map (\<lambda>e_r. f (e_r ! m)) e) = (\<Sum>s < length e. f (e ! s ! m))"
proof -
  have "map (\<lambda>e_r. f (e_r ! m)) e = map (\<lambda>s. f (e ! s ! m)) [0..<length e]"
    by (rule nth_equalityI) simp_all
  then show ?thesis
    by (simp add: interv_sum_list_conv_sum_set_nat atLeast0LessThan)
qed

text \<open>The normaliser of a column: the masked positions contribute nothing.\<close>

lemma masked_column_sum:
  assumes sz: "attention_sized M H htilde_t h F_lens" and m: "m < M"
    and le: "F_lens ! m \<le> length h"
  shows "sum_list (map (\<lambda>e_r. exp_energy (e_r ! m))
            (masked_fill (get_energy_scores cs htilde_t h) (pad_mask (length h) F_lens))) =
         (\<Sum>s < F_lens ! m. exp (cs (htilde_t ! m) (h ! s ! m)))"
proof -
  let ?e = "masked_fill (get_energy_scores cs htilde_t h) (pad_mask (length h) F_lens)"
  let ?g = "\<lambda>s. exp (cs (htilde_t ! m) (h ! s ! m))"
  have "sum_list (map (\<lambda>e_r. exp_energy (e_r ! m)) ?e) = (\<Sum>s < length h. exp_energy (?e ! s ! m))"
    by (simp add: column_sum length_masked)
  also have "\<dots> = (\<Sum>s < length h. if s < F_lens ! m then ?g s else 0)"
    by (rule sum.cong) (simp_all add: masked_nth(1)[OF sz _ m])
  also have "\<dots> = (\<Sum>s \<in> {..<length h} \<inter> {s. s < F_lens ! m}. ?g s)"
    by (simp add: sum.inter_restrict)
  also have "{..<length h} \<inter> {s. s < F_lens ! m} = {..<F_lens ! m}"
    using le by auto
  finally show ?thesis .
qed

lemma exp_sum_pos: "0 < n \<Longrightarrow> 0 < (\<Sum>s < (n::nat). exp (f s :: real))"
  by (rule sum_pos) auto

lemma attention_weights_nth:
  assumes sz: "attention_sized M H htilde_t h F_lens" and m: "m < M"
    and pos: "1 \<le> F_lens ! m" and le: "F_lens ! m \<le> length h"
    and s: "s < length h"
  shows "get_attention_weights cs htilde_t h F_lens ! s ! m =
           Some ((if F_lens ! m \<le> s then 0 else exp (cs (htilde_t ! m) (h ! s ! m)))
                 / (\<Sum>r < F_lens ! m. exp (cs (htilde_t ! m) (h ! r ! m))))"
proof -
  let ?e = "masked_fill (get_energy_scores cs htilde_t h) (pad_mask (length h) F_lens)"
  let ?z = "\<Sum>r < F_lens ! m. exp (cs (htilde_t ! m) (h ! r ! m))"
  have z: "sum_list (map (\<lambda>e_r. exp_energy (e_r ! m)) ?e) = ?z"
    by (rule masked_column_sum[OF sz m le])
  have "0 < ?z" using pos by (intro exp_sum_pos) simp
  then have nz: "?z \<noteq> 0" by simp
  have "s < length ?e" using s by (simp add: length_masked)
  moreover have "m < length (?e ! s)" using masked_nth(2)[OF sz s m] m by simp
  ultimately have "softmax0 ?e ! s ! m = Some (exp_energy (?e ! s ! m) / ?z)"
    using nz by (simp add: softmax0_nth z)
  then show ?thesis
    by (simp add: get_attention_weights_def Let_def masked_nth(1)[OF sz s m])
qed

text \<open>
  Claim C3. For \<open>htilde_t\<close> of size \<open>(M, H)\<close>, \<open>h\<close> of size \<open>(S, M, H)\<close> and
  \<open>1 \<le> F_lens[m] \<le> S\<close> for every \<open>m\<close>, the weights \<open>alpha_t\<close> are the softmax over the
  source positions of the masked energies; every position \<open>s \<ge> F_lens[m]\<close> has energy
  \<open>-inf\<close> and weight exactly \<open>0\<close>; every position \<open>s < F_lens[m]\<close> has the weight
  \<open>exp e[s, m]\<close> divided by the sum of \<open>exp e[r, m]\<close> over \<open>r < F_lens[m]\<close>; and
  the weights at the positions below \<open>F_lens[m]\<close> sum to \<open>1\<close>.
\<close>

theorem attention_weights_masked:
  assumes sz: "attention_sized M H htilde_t h F_lens"
    and lens: "\<forall>m < M. 1 \<le> F_lens ! m \<and> F_lens ! m \<le> length h"
  shows "get_attention_weights cs htilde_t h F_lens =
           softmax0 (masked_fill (get_energy_scores cs htilde_t h) (pad_mask (length h) F_lens)) \<and>
         length (get_attention_weights cs htilde_t h F_lens) = length h \<and>
         (\<forall>m < M.
            (\<forall>s < length h. F_lens ! m \<le> s \<longrightarrow>
               masked_fill (get_energy_scores cs htilde_t h) (pad_mask (length h) F_lens) ! s ! m
                 = NegInf \<and>
               get_attention_weights cs htilde_t h F_lens ! s ! m = Some 0) \<and>
            (\<forall>s < F_lens ! m.
               get_attention_weights cs htilde_t h F_lens ! s ! m =
                 Some (exp (cs (htilde_t ! m) (h ! s ! m))
                       / (\<Sum>r < F_lens ! m. exp (cs (htilde_t ! m) (h ! r ! m))))) \<and>
            (\<Sum>s < F_lens ! m. the (get_attention_weights cs htilde_t h F_lens ! s ! m)) = 1)"
proof -
  have one: "(\<forall>s < length h. F_lens ! m \<le> s \<longrightarrow>
               masked_fill (get_energy_scores cs htilde_t h) (pad_mask (length h) F_lens) ! s ! m
                 = NegInf \<and>
               get_attention_weights cs htilde_t h F_lens ! s ! m = Some 0) \<and>
            (\<forall>s < F_lens ! m.
               get_attention_weights cs htilde_t h F_lens ! s ! m =
                 Some (exp (cs (htilde_t ! m) (h ! s ! m))
                       / (\<Sum>r < F_lens ! m. exp (cs (htilde_t ! m) (h ! r ! m))))) \<and>
            (\<Sum>s < F_lens ! m. the (get_attention_weights cs htilde_t h F_lens ! s ! m)) = 1"
    if m: "m < M" for m
  proof -
    let ?z = "\<Sum>r < F_lens ! m. exp (cs (htilde_t ! m) (h ! r ! m))"
    have pos: "1 \<le> F_lens ! m" and le: "F_lens ! m \<le> length h" using lens m by simp_all
    note w = attention_weights_nth[OF sz m pos le]
    have a: "\<forall>s < length h. F_lens ! m \<le> s \<longrightarrow>
               masked_fill (get_energy_scores cs htilde_t h) (pad_mask (length h) F_lens) ! s ! m
                 = NegInf \<and>
               get_attention_weights cs htilde_t h F_lens ! s ! m = Some 0"
      using w masked_nth(1)[OF sz _ m] by simp
    have b: "\<forall>s < F_lens ! m.
               get_attention_weights cs htilde_t h F_lens ! s ! m =
                 Some (exp (cs (htilde_t ! m) (h ! s ! m)) / ?z)"
      using w le by simp
    have "0 < ?z" using pos by (intro exp_sum_pos) simp
    then have nz: "?z \<noteq> 0" by simp
    have "(\<Sum>s < F_lens ! m. the (get_attention_weights cs htilde_t h F_lens ! s ! m)) =
          (\<Sum>s < F_lens ! m. exp (cs (htilde_t ! m) (h ! s ! m)) / ?z)"
      by (rule sum.cong) (simp_all add: b)
    also have "\<dots> = ?z / ?z" by (simp only: sum_divide_distrib)
    also have "\<dots> = 1" using nz by simp
    finally show ?thesis using a b by blast
  qed
  have "length (get_attention_weights cs htilde_t h F_lens) = length h"
    by (simp add: get_attention_weights_def Let_def length_softmax0 length_masked)
  moreover have "get_attention_weights cs htilde_t h F_lens =
           softmax0 (masked_fill (get_energy_scores cs htilde_t h) (pad_mask (length h) F_lens))"
    by (simp add: get_attention_weights_def Let_def)
  ultimately show ?thesis using one by blast
qed

theorem attention_weights_masked_witness:
  "get_attention_weights dot_product [[1, 0]] [[[1, 2]], [[3, 4]], [[0, 0]]] [2] ! 2 ! 0 = Some 0 \<and>
   get_attention_weights dot_product [[1, 0]] [[[1, 2]], [[3, 4]], [[0, 0]]] [2] ! 0 ! 0
     = Some (exp 1 / (exp 1 + exp 3)) \<and>
   the (get_attention_weights dot_product [[1, 0]] [[[1, 2]], [[3, 4]], [[0, 0]]] [2] ! 0 ! 0) +
   the (get_attention_weights dot_product [[1, 0]] [[[1, 2]], [[3, 4]], [[0, 0]]] [2] ! 1 ! 0) = 1"
proof -
  let ?ht = "[[1, 0 :: real]]"
  let ?h = "[[[1, 2]], [[3, 4]], [[0, 0 :: real]]]"
  let ?a = "get_attention_weights dot_product ?ht ?h [2]"
  have sz: "attention_sized 1 2 ?ht ?h [2]"
    by (simp add: attention_sized_def state_sized_def)
  have lens: "\<forall>m < 1. 1 \<le> [2 :: nat] ! m \<and> [2 :: nat] ! m \<le> length ?h" by simp
  note th = attention_weights_masked[OF sz lens, of dot_product]
  have z: "(0 :: nat) < 1" by simp
  have all: "(\<forall>s < length ?h. [2 :: nat] ! 0 \<le> s \<longrightarrow>
               masked_fill (get_energy_scores dot_product ?ht ?h) (pad_mask (length ?h) [2]) ! s ! 0
                 = NegInf \<and> ?a ! s ! 0 = Some 0) \<and>
            (\<forall>s < [2 :: nat] ! 0.
               ?a ! s ! 0 =
                 Some (exp (dot_product (?ht ! 0) (?h ! s ! 0))
                       / (\<Sum>r < [2 :: nat] ! 0. exp (dot_product (?ht ! 0) (?h ! r ! 0))))) \<and>
            (\<Sum>s < [2 :: nat] ! 0. the (?a ! s ! 0)) = 1"
    using th z by blast
  have two: "{..<2 :: nat} = {0, 1}" by auto
  have a: "?a ! 2 ! 0 = Some 0" using all by simp
  have "(\<Sum>s < [2 :: nat] ! 0. the (?a ! s ! 0)) = 1" using all by blast
  then have c: "the (?a ! 0 ! 0) + the (?a ! 1 ! 0) = 1" by (simp add: two)
  have "\<forall>s < [2 :: nat] ! 0.
               ?a ! s ! 0 =
                 Some (exp (dot_product (?ht ! 0) (?h ! s ! 0))
                       / (\<Sum>r < [2 :: nat] ! 0. exp (dot_product (?ht ! 0) (?h ! r ! 0))))"
    using all by blast
  then have "?a ! 0 ! 0 = Some (exp (dot_product (?ht ! 0) (?h ! 0 ! 0))
                       / (\<Sum>r < [2 :: nat] ! 0. exp (dot_product (?ht ! 0) (?h ! r ! 0))))"
    by simp
  then have b: "?a ! 0 ! 0 = Some (exp 1 / (exp 1 + exp 3))"
    by (simp add: two dot_product_def)
  show ?thesis using a b c by blast
qed

lemma map2_nth_conv:
  "length xs = length ys \<Longrightarrow> map2 f xs ys = map (\<lambda>i. f (xs ! i) (ys ! i)) [0..<length xs]"
  by (rule nth_equalityI) simp_all

lemma identity_matrix_nth:
  "j < n \<Longrightarrow> identity_matrix n ! j = map (\<lambda>i. if j = i then 1 else 0) [0..<n]"
  "length (identity_matrix n) = n"
  by (simp_all add: identity_matrix_def)

lemma identity_row_sum:
  assumes "length x = n" and "j < n"
  shows "sum_list (map2 (\<lambda>a b. a * b) (identity_matrix n ! j) x) = x ! j"
proof -
  have "map2 (\<lambda>a b. a * b) (identity_matrix n ! j) x =
        map (\<lambda>i. if j = i then x ! i else 0) [0..<n]"
    using assms by (intro nth_equalityI) (simp_all add: identity_matrix_nth)
  then have "sum_list (map2 (\<lambda>a b. a * b) (identity_matrix n ! j) x) =
        (\<Sum>i \<in> {0..<n}. if j = i then x ! i else 0)"
    by (simp add: interv_sum_list_conv_sum_set_nat)
  also have "\<dots> = x ! j" using assms(2) by simp
  finally show ?thesis .
qed

lemma linear_identity:
  assumes "length x = n"
  shows "linear (identity_matrix n) x = x"
proof (rule nth_equalityI)
  show "length (linear (identity_matrix n) x) = length x"
    using assms by (simp add: linear_def identity_matrix_nth)
next
  fix j assume "j < length (linear (identity_matrix n) x)"
  then have j: "j < n" by (simp add: linear_def identity_matrix_nth)
  then show "linear (identity_matrix n) x ! j = x ! j"
    using identity_row_sum[OF assms j] by (simp add: linear_def identity_matrix_nth(2))
qed

lemma nan_sum_Some: "nan_sum (map Some ys) = Some (sum_list ys)"
  by (induction ys) (simp_all add: nan_sum_def)

lemma nan_sum_defined:
  "\<forall>x \<in> set xs. \<exists>w. x = Some w \<Longrightarrow> \<exists>w. nan_sum xs = Some w"
proof -
  assume "\<forall>x \<in> set xs. \<exists>w. x = Some w"
  then have "xs = map Some (map the xs)"
    by (intro nth_equalityI) auto
  then show ?thesis using nan_sum_Some[of "map the xs"] by metis
qed

lemma nan_linear_identity:
  assumes "length x = n" and "\<forall>e \<in> set x. \<exists>w. e = Some w"
  shows "nan_linear (identity_matrix n) x = x"
proof -
  define v where "v = map the x"
  have x: "x = map Some v" unfolding v_def using assms(2) by (intro nth_equalityI) auto
  have lv: "length v = n" using assms(1) by (simp add: v_def)
  have "nan_linear (identity_matrix n) (map Some v) = map Some (linear (identity_matrix n) v)"
  proof (rule nth_equalityI)
    show "length (nan_linear (identity_matrix n) (map Some v)) =
          length (map Some (linear (identity_matrix n) v))"
      by (simp add: nan_linear_def linear_def)
  next
    fix j assume "j < length (nan_linear (identity_matrix n) (map Some v))"
    then have j: "j < n" by (simp add: nan_linear_def identity_matrix_nth)
    have m2: "map2 (\<lambda>a c. nan_mul c a) (identity_matrix n ! j) (map Some v) =
          map Some (map2 (\<lambda>a b. a * b) (identity_matrix n ! j) v)"
      using lv j by (intro nth_equalityI) (simp_all add: nan_mul_def identity_matrix_nth)
    have e: "nan_sum (map2 (\<lambda>a c. nan_mul c a) (identity_matrix n ! j) (map Some v)) =
          Some (sum_list (map2 (\<lambda>a b. a * b) (identity_matrix n ! j) v))"
      unfolding m2 by (rule nan_sum_Some)
    have L: "nan_linear (identity_matrix n) (map Some v) ! j =
          nan_sum (map2 (\<lambda>a c. nan_mul c a) (identity_matrix n ! j) (map Some v))"
      using j by (simp add: nan_linear_def identity_matrix_nth(2))
    have R: "map Some (linear (identity_matrix n) v) ! j =
          Some (sum_list (map2 (\<lambda>a b. a * b) (identity_matrix n ! j) v))"
      using j by (simp add: linear_def identity_matrix_nth(2))
    show "nan_linear (identity_matrix n) (map Some v) ! j =
          map Some (linear (identity_matrix n) v) ! j"
      by (simp only: L R e)
  qed
  then show ?thesis using linear_identity[OF lv] x by simp
qed

lemma drop_concat_rows:
  "\<forall>r \<in> set rows. length r = c \<Longrightarrow> i \<le> length rows \<Longrightarrow>
   drop (i * c) (concat rows) = concat (drop i rows)"
proof (induction rows arbitrary: i)
  case Nil
  then show ?case by simp
next
  case (Cons r rows)
  show ?case
  proof (cases i)
    case 0
    then show ?thesis by simp
  next
    case (Suc k)
    then show ?thesis using Cons by simp
  qed
qed

lemma take_drop_concat_rows:
  assumes "\<forall>r \<in> set rows. length r = c" and "i < length rows"
  shows "take c (drop (i * c) (concat rows @ rest)) = rows ! i"
proof -
  have len: "length (concat rows) = length rows * c" by (rule length_concat_uniform[OF assms(1)])
  have "i * c \<le> length rows * c" using assms(2) by simp
  then have "drop (i * c) (concat rows @ rest) = drop (i * c) (concat rows) @ rest"
    using len by simp
  also have "drop (i * c) (concat rows) = concat (drop i rows)"
    using drop_concat_rows[OF assms(1), of i] assms(2) by simp
  also have "drop i rows = rows ! i # drop (Suc i) rows"
    using assms(2) by (simp add: Cons_nth_drop_Suc)
  finally have "drop (i * c) (concat rows @ rest) = rows ! i @ concat (drop (Suc i) rows) @ rest"
    by simp
  moreover have "length (rows ! i) = c" using assms by simp
  ultimately show ?thesis by simp
qed

lemma view2_concat:
  assumes "\<forall>r \<in> set rows. length r = c"
  shows "view2 (length rows) c (concat rows) = Inr rows"
proof -
  have "map (\<lambda>i. take c (drop (i * c) (concat rows))) [0..<length rows] = rows"
    using take_drop_concat_rows[OF assms, of _ "[]"] by (intro nth_equalityI) simp_all
  then show ?thesis using length_concat_uniform[OF assms] by (simp add: view2_def)
qed

lemma view3_concat:
  assumes "\<forall>x \<in> set t. length x = b \<and> (\<forall>r \<in> set x. length r = c)"
  shows "view3 (length t) b c (concat (map concat t)) = Inr t"
proof -
  let ?flat = "concat (map concat t)"
  have blocks: "\<forall>x \<in> set (map concat t). length x = b * c"
    using assms by (auto simp: length_concat_uniform)
  have len: "length ?flat = length t * b * c"
    using length_concat_uniform[OF blocks] by (simp add: mult.assoc)
  have row: "take c (drop (i * b * c + j * c) ?flat) = t ! i ! j"
    if i: "i < length t" and j: "j < b" for i j
  proof -
    have x: "length (t ! i) = b" "\<forall>r \<in> set (t ! i). length r = c"
      using assms nth_mem[OF i] by auto
    have "drop (i * (b * c)) ?flat = concat (drop i (map concat t))"
      using drop_concat_rows[OF blocks, of i] i by simp
    also have "drop i (map concat t) = concat (t ! i) # drop (Suc i) (map concat t)"
      using i by (simp add: Cons_nth_drop_Suc[symmetric])
    finally have "drop (i * (b * c)) ?flat =
        concat (t ! i) @ concat (drop (Suc i) (map concat t))" by simp
    then have "drop (i * b * c + j * c) ?flat =
        drop (j * c) (concat (t ! i) @ concat (drop (Suc i) (map concat t)))"
      by (simp add: mult.assoc add.commute drop_drop[symmetric] del: drop_drop)
    then show ?thesis using take_drop_concat_rows[OF x(2), of j] j x(1) by simp
  qed
  have "map (\<lambda>i. map (\<lambda>j. take c (drop (i * b * c + j * c) ?flat)) [0..<b]) [0..<length t] = t"
  proof (rule nth_equalityI)
    show "length (map (\<lambda>i. map (\<lambda>j. take c (drop (i * b * c + j * c) ?flat)) [0..<b]) [0..<length t])
        = length t" by simp
  next
    fix i assume "i < length (map (\<lambda>i. map (\<lambda>j. take c (drop (i * b * c + j * c) ?flat)) [0..<b]) [0..<length t])"
    then have i: "i < length t" by simp
    have "map (\<lambda>j. take c (drop (i * b * c + j * c) ?flat)) [0..<b] = t ! i"
      using assms i row[OF i] by (intro nth_equalityI) simp_all
    then show "map (\<lambda>i. map (\<lambda>j. take c (drop (i * b * c + j * c) ?flat)) [0..<b]) [0..<length t] ! i
        = t ! i" using i by simp
  qed
  then show ?thesis using len by (simp add: view3_def)
qed

lemma repeat_interleave_one: "repeat_interleave xs 1 = xs"
  by (induction xs) (simp_all add: repeat_interleave_def)

lemma weights_defined:
  assumes sz: "attention_sized M H htilde_t h F_lens" and m: "m < M"
    and pos: "1 \<le> F_lens ! m" and s: "s < length h"
  shows "\<exists>w. get_attention_weights cs htilde_t h F_lens ! s ! m = Some w"
proof -
  let ?e = "masked_fill (get_energy_scores cs htilde_t h) (pad_mask (length h) F_lens)"
  have z: "sum_list (map (\<lambda>e_r. exp_energy (e_r ! m)) ?e) = (\<Sum>r < length h. exp_energy (?e ! r ! m))"
    by (simp add: column_sum length_masked)
  have S: "0 < length h" using s by (cases h) simp_all
  have "?e ! 0 ! m = Fin (cs (htilde_t ! m) (h ! 0 ! m))"
    using masked_nth(1)[OF sz S m] pos by simp
  then have p0: "0 < exp_energy (?e ! 0 ! m)" by simp
  have nonneg: "0 \<le> exp_energy x" for x by (cases x) simp_all
  have "0 < (\<Sum>r < length h. exp_energy (?e ! r ! m))"
    by (rule sum_pos2[where i = 0]) (use S p0 nonneg in simp_all)
  then have nz: "sum_list (map (\<lambda>e_r. exp_energy (e_r ! m)) ?e) \<noteq> 0" using z by simp
  have "s < length ?e" using s by (simp add: length_masked)
  moreover have "m < length (?e ! s)" using masked_nth(2)[OF sz s m] m by simp
  ultimately have "softmax0 ?e ! s ! m =
      Some (exp_energy (?e ! s ! m) / sum_list (map (\<lambda>e_r. exp_energy (e_r ! m)) ?e))"
    using nz by (simp add: softmax0_nth)
  then show ?thesis by (simp add: get_attention_weights_def Let_def)
qed

lemma attend_tensor_defined:
  assumes sz: "attention_sized M H htilde_t h F_lens"
    and pos: "\<forall>m < M. 1 \<le> F_lens ! m"
  shows "length (attend_tensor cs htilde_t h F_lens) = M"
    and "\<forall>row \<in> set (attend_tensor cs htilde_t h F_lens).
           length row = H \<and> (\<forall>e \<in> set row. \<exists>w. e = Some w)"
proof -
  note n = attention_sized_nth[OF sz]
  let ?alpha = "get_attention_weights cs htilde_t h F_lens"
  show "length (attend_tensor cs htilde_t h F_lens) = M"
    using n(1) by (simp add: attend_tensor_def weighted_sum_def)
  show "\<forall>row \<in> set (attend_tensor cs htilde_t h F_lens).
           length row = H \<and> (\<forall>e \<in> set row. \<exists>w. e = Some w)"
  proof
    fix row assume "row \<in> set (attend_tensor cs htilde_t h F_lens)"
    then obtain m where m: "m < M" and row: "row =
        map (\<lambda>j. nan_sum (map (\<lambda>s. nan_mul (?alpha ! s ! m) (h ! s ! m ! j)) [0..<length h]))
           [0..<length (htilde_t ! m)]"
      using n(1) by (auto simp: attend_tensor_def weighted_sum_def)
    have "\<exists>w. nan_sum (map (\<lambda>s. nan_mul (?alpha ! s ! m) (h ! s ! m ! j)) [0..<length h]) = Some w"
      for j
    proof (rule nan_sum_defined, rule ballI)
      fix x assume "x \<in> set (map (\<lambda>s. nan_mul (?alpha ! s ! m) (h ! s ! m ! j)) [0..<length h])"
      then obtain s where s: "s < length h" and x: "x = nan_mul (?alpha ! s ! m) (h ! s ! m ! j)"
        by auto
      obtain w where "?alpha ! s ! m = Some w"
        using weights_defined[OF sz m _ s] pos m by blast
      then show "\<exists>w. x = Some w" using x by (simp add: nan_mul_def)
    qed
    then have "\<forall>e \<in> set row. \<exists>w. e = Some w" unfolding row by auto
    moreover have "length row = H" using n(4) m by (simp add: row)
    ultimately show "length row = H \<and> (\<forall>e \<in> set row. \<exists>w. e = Some w)" by simp
  qed
qed

lemma split_heads_identity:
  assumes "state_sized M H hid" and "heads self = 1" and "hidden_state_size self = H"
    and "Wtilde self = identity_matrix H"
  shows "split_heads self hid = Inr hid"
proof -
  have rows: "\<forall>r \<in> set hid. length r = H" and len: "length hid = M"
    using assms(1) by (simp_all add: state_sized_def list_all_iff)
  have "map (linear (identity_matrix H)) hid = hid"
    using rows by (intro map_idI) (simp add: linear_identity)
  then show ?thesis
    using assms(2-4) view2_concat[OF rows] by (simp add: split_heads_def)
qed

lemma attend_on_state:
  assumes "state_matches (cell_type self) htilde_t"
  shows "attend cs self htilde_t h F_lens =
           Inr (attend_tensor cs (query_state htilde_t) h F_lens)"
  using assms by (cases htilde_t; cases "cell_type self") (simp_all add: attend_def)

lemma query_input_identity:
  assumes "state_sized M H (query_state htilde_t)"
    and "state_matches (cell_type self) htilde_t"
    and "heads self = 1" and "hidden_state_size self = H"
    and "Wtilde self = identity_matrix H"
  shows "query_input self htilde_t = Inr (M, htilde_t)"
proof -
  have len: "length (query_state htilde_t) = M" using assms(1) by (simp add: state_sized_def)
  note sp = split_heads_identity[OF assms(1,3,4,5)]
  show ?thesis
    using assms(2) sp len
    by (cases htilde_t; cases "cell_type self") (simp_all add: query_input_def)
qed

text \<open>
  Claim C8. With one head and the identity for the projections \<open>W\<close>, \<open>Wtilde\<close> and
  \<open>Q\<close>, the multi-head \<open>attend\<close> returns the context vector of the single-head
  \<open>attend\<close>, for a state that is one tensor and for the LSTM pair, for every \<open>h\<close> and
  every \<open>F_lens\<close> with all entries at least \<open>1\<close>.
\<close>

theorem multi_head_one_head_identity:
  assumes sz: "attention_sized M H (query_state htilde_t) h F_lens"
    and st: "state_matches (cell_type self) htilde_t"
    and hd: "heads self = 1" and H: "hidden_state_size self = H"
    and proj: "W self = identity_matrix H" "Wtilde self = identity_matrix H"
              "Q self = identity_matrix H"
    and lens: "\<forall>m < M. 1 \<le> F_lens ! m"
  shows "mh_attend cs self htilde_t h F_lens = attend cs self htilde_t h F_lens \<and>
         attend cs self htilde_t h F_lens =
           Inr (attend_tensor cs (query_state htilde_t) h F_lens)"
proof -
  let ?hid = "query_state htilde_t"
  let ?c = "attend_tensor cs ?hid h F_lens"
  have ss: "state_sized M H ?hid" and hs: "\<forall>x \<in> set h. state_sized M H x"
    using sz by (simp_all add: attention_sized_def list_all_iff)
  have q: "query_input self htilde_t = Inr (M, htilde_t)"
    by (rule query_input_identity[OF ss st hd H proj(2)])
  have "map (map (linear (identity_matrix H))) h = h"
  proof (intro map_idI)
    fix x r assume "x \<in> set h" "r \<in> set x"
    then have "length r = H" using hs by (auto simp: state_sized_def list_all_iff)
    then show "linear (identity_matrix H) r = r" by (rule linear_identity)
  qed
  moreover have "\<forall>x \<in> set h. length x = M \<and> (\<forall>r \<in> set x. length r = H)"
    using hs by (simp add: state_sized_def list_all_iff)
  ultimately have v3: "view3 (length h) (M * heads self) (hidden_state_size self div heads self)
      (concat (map concat (map (map (linear (W self))) h))) = Inr h"
    using view3_concat[of h M H] hd H proj(1) by simp
  have f: "repeat_interleave F_lens (heads self) = F_lens"
    unfolding hd by (rule repeat_interleave_one)
  have a: "attend cs self htilde_t h F_lens = Inr ?c"
    by (rule attend_on_state[OF st])
  note d = attend_tensor_defined[OF sz lens, of cs]
  have rows: "\<forall>r \<in> set ?c. length r = H" using d(2) by blast
  have v2: "view2 M (hidden_state_size self) (concat ?c) = Inr ?c"
    using view2_concat[OF rows] d(1) H by simp
  have nl: "map (nan_linear (Q self)) ?c = ?c"
  proof (intro map_idI)
    fix r assume "r \<in> set ?c"
    then have "length r = H" "\<forall>e \<in> set r. \<exists>w. e = Some w" using d(2) by blast+
    then show "nan_linear (Q self) r = r" using proj(3) by (simp add: nan_linear_identity)
  qed
  have "mh_attend cs self htilde_t h F_lens = Inr ?c"
    unfolding mh_attend_def Let_def q
    by (simp only: sum.case prod.case v3 f a v2 nl)
  then show ?thesis using a by simp
qed

theorem multi_head_one_head_identity_witness:
  "mh_attend dot_product
      \<lparr>cell_type = LSTM, hidden_state_size = 2, heads = 1, W = identity_matrix 2,
        Wtilde = identity_matrix 2, Q = identity_matrix 2\<rparr>
      (Pair [[1, 0]] [[5, 6]]) [[[1, 2]], [[3, 4]], [[0, 0]]] [2]
   = attend dot_product
      \<lparr>cell_type = LSTM, hidden_state_size = 2, heads = 1, W = identity_matrix 2,
        Wtilde = identity_matrix 2, Q = identity_matrix 2\<rparr>
      (Pair [[1, 0]] [[5, 6]]) [[[1, 2]], [[3, 4]], [[0, 0]]] [2] \<and>
   mh_attend dot_product
      \<lparr>cell_type = GRU, hidden_state_size = 2, heads = 1, W = identity_matrix 2,
        Wtilde = identity_matrix 2, Q = identity_matrix 2\<rparr>
      (Tensor [[1, 0]]) [[[1, 2]], [[3, 4]], [[0, 0]]] [2]
   = Inr (attend_tensor dot_product [[1, 0]] [[[1, 2]], [[3, 4]], [[0, 0]]] [2])"
proof -
  let ?lstm = "\<lparr>cell_type = LSTM, hidden_state_size = 2, heads = 1, W = identity_matrix 2,
        Wtilde = identity_matrix 2, Q = identity_matrix 2\<rparr>"
  let ?gru = "\<lparr>cell_type = GRU, hidden_state_size = 2, heads = 1, W = identity_matrix 2,
        Wtilde = identity_matrix 2, Q = identity_matrix 2\<rparr>"
  let ?h = "[[[1, 2]], [[3, 4]], [[0, 0 :: real]]]"
  have sz: "attention_sized 1 2 (query_state (Pair [[1, 0]] [[5, 6]])) ?h [2]"
    by (simp add: attention_sized_def state_sized_def)
  have sz': "attention_sized 1 2 (query_state (Tensor [[1, 0]])) ?h [2]"
    by (simp add: attention_sized_def state_sized_def)
  have lens: "\<forall>m < 1. 1 \<le> [2 :: nat] ! m" by simp
  have a: "mh_attend dot_product ?lstm (Pair [[1, 0]] [[5, 6]]) ?h [2] =
           attend dot_product ?lstm (Pair [[1, 0]] [[5, 6]]) ?h [2]"
    using multi_head_one_head_identity[OF sz _ _ _ _ _ _ lens, of ?lstm dot_product] by simp
  have b: "mh_attend dot_product ?gru (Tensor [[1, 0]]) ?h [2] =
           Inr (attend_tensor dot_product [[1, 0]] ?h [2])"
    using multi_head_one_head_identity[OF sz' _ _ _ _ _ _ lens, of ?gru dot_product] by simp
  show ?thesis using a b by (rule conjI)
qed

end
